theory Spec2Isabelle
  imports Complex_Main "HOL-Library.Word"
begin

section \<open>Common types\<close>

text \<open>
  Go's \<open>error\<close> values. \<open>ErrInvalidAPIHandler\<close> is the constant of package
  \<open>httpapi\<close>; \<open>Errorf\<close> is an error wrapped by \<open>fmt.Errorf\<close> behind a message; every
  other error is kept by its message.
\<close>

datatype error = ErrInvalidAPIHandler | Error string | Errorf string error

text \<open>
  A \<open>float64\<close> value: a finite value, an infinity or NaN. A comparison with NaN is
  false.
\<close>

datatype float64 = NaN | NegInf | Finite real | PosInf

section \<open>Package otelcol: ApiWrite\<close>

text \<open>Source: \<open>src/unnamed/part_003\<close>, lines 57 to 85.\<close>

text \<open>
  The result object filled by \<open>APIV1Write\<close>: only the three fields \<open>ApiWrite\<close> reads.
\<close>

record ('cat, 'pt, 'body) APIWriteResult =
  Category :: 'cat
  Points :: "'pt list"
  RespBody :: 'body

text \<open>
  A value of type \<open>interface{}\<close> as \<open>ApiWrite\<close> sees it: the nil interface, a value
  whose dynamic type implements \<open>OtelAPIWrite\<close> (given by its \<open>Feed\<close> method, which
  may change the world \<open>'w\<close> and returns an error or nil), or a value of any other type.
\<close>

datatype ('req, 'cat, 'pt, 'w) iface =
    NilIface
  | OtelAPIWrite "'req \<Rightarrow> 'cat \<Rightarrow> 'pt list \<Rightarrow> 'w \<Rightarrow> error option \<times> 'w"
  | OtherValue

text \<open>
  \<open>ApiWrite(c, req, x...)\<close>. The parser \<open>wr.APIV1Write\<close> belongs to package
  \<open>httpapi\<close> and is a parameter. The result is Go's pair \<open>(interface{}, error)\<close> as a
  sum, together with the world after the call.
\<close>

definition ApiWrite ::
  "('req \<Rightarrow> error + ('cat, 'pt, 'body) APIWriteResult) \<Rightarrow> 'req \<Rightarrow>
   ('req, 'cat, 'pt, 'w) iface list \<Rightarrow> 'w \<Rightarrow> (error + 'body) \<times> 'w" where
  "ApiWrite APIV1Write req x w =
     (if x = [] \<or> length x \<noteq> 1 then (Inl ErrInvalidAPIHandler, w)
      else case hd x of
          OtelAPIWrite Feed \<Rightarrow>
            (case APIV1Write req of
                Inl err \<Rightarrow> (Inl err, w)
              | Inr wr \<Rightarrow>
                  if length (Points wr) \<noteq> 0
                  then (case Feed req (Category wr) (Points wr) w of
                          (Some err, w') \<Rightarrow> (Inr (RespBody wr), w')
                        | (None, w') \<Rightarrow> (Inr (RespBody wr), w'))
                  else (Inr (RespBody wr), w))
        | _ \<Rightarrow> (Inl ErrInvalidAPIHandler, w))"

section \<open>Package disk: collect\<close>

text \<open>Source: \<open>src/unnamed/part_002\<close>, lines 125 to 197.\<close>

text \<open>
  The usage entry and the partition entry returned by \<open>diskStats.FilterUsage\<close>, with the
  fields \<open>collect\<close> reads. Go's \<open>uint64\<close> is a 64-bit word.
\<close>

record UsageStat =
  Fstype :: string
  Total :: "64 word"
  Free :: "64 word"
  Used :: "64 word"
  InodesTotal :: "64 word"
  InodesUsed :: "64 word"
  InodesFree :: "64 word"
  InodesUsedPercent :: float64

record PartitionStat =
  Device :: string
  Mountpoint :: string

text \<open>
  \<open>point.KVs\<close> of the cliutils library: a list of keys with a value and a tag flag.
  \<open>Add(k, v, isTag, force)\<close> makes the entry a tag only when \<open>isTag\<close> is set and the value
  is a string. It overwrites the entry of a key already present when \<open>force\<close> is set,
  leaves it as it is when \<open>force\<close> is not set, and appends the entry of a new key.
  \<open>AddTag(k, v)\<close> is \<open>Add(k, v, true, false)\<close>: a key already present keeps its entry.
\<close>

datatype kv_value = VString string | VUint "64 word" | VFloat float64

type_synonym KVs = "(string \<times> kv_value \<times> bool) list"

fun is_VString :: "kv_value \<Rightarrow> bool" where
  "is_VString (VString s) = True"
| "is_VString (VUint u) = False"
| "is_VString (VFloat f) = False"

fun KVs_Add :: "KVs \<Rightarrow> string \<Rightarrow> kv_value \<Rightarrow> bool \<Rightarrow> bool \<Rightarrow> KVs" where
  "KVs_Add [] k v isTag force = [(k, v, isTag \<and> is_VString v)]"
| "KVs_Add ((k', e) # x) k v isTag force =
     (if k' = k then (if force then (k, v, isTag \<and> is_VString v) # x else (k', e) # x)
      else (k', e) # KVs_Add x k v isTag force)"

definition KVs_AddTag :: "KVs \<Rightarrow> string \<Rightarrow> string \<Rightarrow> KVs" where
  "KVs_AddTag x k v = KVs_Add x k (VString v) True False"

text \<open>
  Arithmetic of \<open>float64\<close> on the values \<open>collect\<close> computes with, all of them finite and
  not negative. \<open>round_div n d\<close> is the quotient of \<open>n\<close> by \<open>d\<close> rounded to the nearest
  integer, ties to even; \<open>bit_length n\<close> is the number of binary digits of \<open>n\<close>.
\<close>

definition round_div :: "nat \<Rightarrow> nat \<Rightarrow> nat" where
  "round_div n d =
     (let q = n div d; r = n mod d
      in if d < 2 * r \<or> (2 * r = d \<and> odd q) then q + 1 else q)"

fun bit_length :: "nat \<Rightarrow> nat" where
  "bit_length n = (if n = 0 then 0 else Suc (bit_length (n div 2)))"

declare bit_length.simps [simp del]

text \<open>
  Conversion of an unsigned integer to \<open>float64\<close>, and the \<open>float64\<close> sum of two integer
  values: the nearest value with a 53-bit significand, ties to even. The result is
  again an integer, so it is kept as a natural number.
\<close>

definition float64_of_nat :: "nat \<Rightarrow> nat" where
  "float64_of_nat n =
     (if n < 2 ^ 53 then n
      else let e = bit_length n - 53 in round_div n (2 ^ e) * 2 ^ e)"

definition float64_add :: "nat \<Rightarrow> nat \<Rightarrow> nat" where
  "float64_add a b = float64_of_nat (a + b)"

text \<open>
  A value with significand \<open>m\<close> and binary scale \<open>k\<close> is \<open>m / 2 ^ k\<close>. The \<open>float64\<close>
  quotient of two positive integer values: the scale is chosen so that the exact
  quotient, scaled, lies between \<open>2 ^ 52\<close> and \<open>2 ^ 53\<close>, and the significand is the
  scaled quotient rounded to the nearest integer, ties to even. The \<open>float64\<close> product
  of such a value with a small integer rounds the product of the significands.
\<close>

definition float64_value :: "nat \<times> int \<Rightarrow> real" where
  "float64_value p = real (fst p) * 2 powi (- snd p)"

definition float64_div :: "nat \<Rightarrow> nat \<Rightarrow> nat \<times> int" where
  "float64_div a d =
     (let k0 = 53 + int (bit_length d) - int (bit_length a);
          k = (if 2 ^ 53 \<le> (a * 2 ^ nat k0) div (d * 2 ^ nat (- k0)) then k0 - 1 else k0)
      in (round_div (a * 2 ^ nat k) (d * 2 ^ nat (- k)), k))"

definition float64_mul_nat :: "nat \<times> int \<Rightarrow> nat \<Rightarrow> nat \<times> int" where
  "float64_mul_nat p c = (float64_of_nat (fst p * c), snd p)"

text \<open>
  Lines 151 to 155 of \<open>collect\<close>: \<open>usedPercent\<close> starts as 0 and is assigned
  \<open>float64(du.Used) / (float64(du.Used) + float64(du.Free)) * 100\<close> only under the
  guard, whose sum is a \<open>uint64\<close> sum (it wraps).
\<close>

definition usedPercent :: "UsageStat \<Rightarrow> real" where
  "usedPercent du =
     (if Used du + Free du > 0
      then float64_value
             (float64_mul_nat
                (float64_div (float64_of_nat (unat (Used du)))
                   (float64_add (float64_of_nat (unat (Used du)))
                      (float64_of_nat (unat (Free du)))))
                100)
      else 0)"

definition inputName :: string where
  "inputName = ''disk''"

fun strings_Join :: "string list \<Rightarrow> string \<Rightarrow> string" where
  "strings_Join [] sep = []"
| "strings_Join [a] sep = a"
| "strings_Join (a # b # rest) sep = a @ sep @ strings_Join (b # rest) sep"

definition strings_HasPrefix :: "string \<Rightarrow> string \<Rightarrow> bool" where
  "strings_HasPrefix s pre = (take (length pre) s = pre)"

text \<open>
  What \<open>collect\<close> reads besides the usage list: \<open>runtime.GOOS\<close> and the constants
  \<open>datakit.OSLinux\<close> and \<open>datakit.OSDarwin\<close> it is compared with, the switch
  \<open>EnableLVMMapperPath\<close>, the merged tags in the order the map iteration yields them,
  the outcomes of \<open>ipt.findDisk\<close> and \<open>GetMapperPath\<close> for a device (both read the
  file system through helpers outside the sources at hand), and \<open>point.NewPointV2\<close> of
  the cliutils library, which makes a point of type \<open>'pt\<close> from the name, the fields and
  the time given with \<open>point.WithTimestamp\<close>.
\<close>

record 'pt disk_env =
  GOOS :: string
  OSLinux :: string
  OSDarwin :: string
  EnableLVMMapperPath :: bool
  mergedTags :: "(string \<times> string) list"
  findDisk :: "string \<Rightarrow> error + string list"
  GetMapperPath :: "string \<Rightarrow> error + string"
  NewPointV2 :: "string \<Rightarrow> KVs \<Rightarrow> 64 word \<Rightarrow> 'pt"

text \<open>
  The body of the loop from line 141 on, for a usage entry that is kept. The call at
  line 179 does not assign its result; the key \<open>device\<close> is present there, and \<open>Add\<close>
  overwrites the entry of a present key in place.
\<close>

definition collect_kvs :: "'pt disk_env \<Rightarrow> UsageStat \<Rightarrow> PartitionStat \<Rightarrow> KVs" where
  "collect_kvs env du part =
     (let kvs = KVs_Add [] ''device'' (VString (Device part)) True True;
          kvs = KVs_Add kvs ''fstype'' (VString (Fstype du)) True True;
          kvs = KVs_Add kvs ''total'' (VUint (Total du)) False True;
          kvs = KVs_Add kvs ''free'' (VUint (Free du)) False True;
          kvs = KVs_Add kvs ''used'' (VUint (Used du)) False True;
          kvs = KVs_Add kvs ''used_percent'' (VFloat (Finite (usedPercent du))) False True;
          kvs =
            (if GOOS env = OSLinux env \<or> GOOS env = OSDarwin env then
               let kvs = KVs_Add kvs ''inodes_total_mb'' (VUint (InodesTotal du div 1000000)) False True;
                   kvs = KVs_Add kvs ''inodes_free_mb'' (VUint (InodesFree du div 1000000)) False True;
                   kvs = KVs_Add kvs ''inodes_used_mb'' (VUint (InodesUsed du div 1000000)) False True;
                   kvs = KVs_Add kvs ''inodes_used_percent'' (VFloat (InodesUsedPercent du)) False True;
                   kvs = KVs_Add kvs ''inodes_total'' (VUint (InodesTotal du)) False True;
                   kvs = KVs_Add kvs ''inodes_free'' (VUint (InodesFree du)) False True;
                   kvs = KVs_Add kvs ''inodes_used'' (VUint (InodesUsed du)) False True;
                   kvs = KVs_Add kvs ''mount_point'' (VString (Mountpoint part)) True True
               in (case findDisk env (Device part) of
                     Inr physicalDevices \<Rightarrow>
                       let kvs = KVs_Add kvs ''disk_name''
                                   (VString (strings_Join physicalDevices '' '')) True True
                       in if EnableLVMMapperPath env \<and> strings_HasPrefix (Device part) ''/dev/dm-''
                          then (case GetMapperPath env (Device part) of
                                  Inr mapperPath \<Rightarrow> KVs_Add kvs ''device'' (VString mapperPath) True True
                                | Inl err \<Rightarrow> kvs)
                          else kvs
                   | Inl err \<Rightarrow> kvs)
             else kvs)
      in foldl (\<lambda>kvs (k, v). KVs_AddTag kvs k v) kvs (mergedTags env))"

text \<open>
  The loop \<open>for index, du := range disks\<close>. \<open>None\<close> is the run-time panic of
  \<open>partitions[index]\<close> out of range, which the source reaches for a nil entry (in the
  log call) and for a kept entry, but not for an entry with \<open>Total = 0\<close>.
\<close>

fun collect_loop ::
  "'pt disk_env \<Rightarrow> 64 word \<Rightarrow> PartitionStat list \<Rightarrow> nat \<Rightarrow> UsageStat option list \<Rightarrow>
   'pt list \<Rightarrow> 'pt list option" where
  "collect_loop env ptTS partitions index [] collectCache = Some collectCache"
| "collect_loop env ptTS partitions index (None # disks) collectCache =
     (if index < length partitions
      then collect_loop env ptTS partitions (Suc index) disks collectCache
      else None)"
| "collect_loop env ptTS partitions index (Some du # disks) collectCache =
     (if Total du = 0
      then collect_loop env ptTS partitions (Suc index) disks collectCache
      else if index < length partitions
      then collect_loop env ptTS partitions (Suc index) disks
             (collectCache @ [NewPointV2 env inputName (collect_kvs env du (partitions ! index)) ptTS])
      else None)"

text \<open>
  \<open>collect(ptTS)\<close>: the outcome of \<open>diskStats.FilterUsage\<close> is a parameter. The result
  is the returned error and the new \<open>collectCache\<close>, or \<open>None\<close> for a panic.
\<close>

definition collect ::
  "'pt disk_env \<Rightarrow> (error + UsageStat option list \<times> PartitionStat list) \<Rightarrow> 64 word \<Rightarrow>
   (error option \<times> 'pt list) option" where
  "collect env FilterUsage ptTS =
     (case FilterUsage of
        Inl err \<Rightarrow> Some (Some (Errorf ''error getting disk usage info: '' err), [])
      | Inr (disks, partitions) \<Rightarrow>
          (case collect_loop env ptTS partitions 0 disks [] of
             None \<Rightarrow> None
           | Some collectCache \<Rightarrow> Some (None, collectCache)))"

section \<open>Package itrace: the filter chain\<close>

text \<open>
  Modelled from the spec: the span type of package \<open>itrace\<close> is missing from the sources
  at hand. A span as the filters see it: its name, the service and the resource it
  belongs to, its timestamp and its error flag.
\<close>

record Span =
  span_name :: string
  service :: string
  resource :: string
  timestamp :: int
  error_flag :: bool

text \<open>
  Modelled from the spec: force-keep is an annotation carried with each span through the
  chain; the second component is true once a stage has marked the span.
\<close>

type_synonym annotated_span = "Span \<times> bool"

fun float64_le :: "float64 \<Rightarrow> float64 \<Rightarrow> bool" where
  "float64_le NaN y = False"
| "float64_le x NaN = False"
| "float64_le NegInf y = True"
| "float64_le x PosInf = True"
| "float64_le (Finite a) (Finite b) = (a \<le> b)"
| "float64_le PosInf y = False"
| "float64_le x NegInf = False"

fun float64_less :: "float64 \<Rightarrow> float64 \<Rightarrow> bool" where
  "float64_less NaN y = False"
| "float64_less x NaN = False"
| "float64_less PosInf y = False"
| "float64_less x NegInf = False"
| "float64_less (Finite a) (Finite b) = (a < b)"
| "float64_less NegInf y = True"
| "float64_less x PosInf = True"

text \<open>\<open>time.Duration\<close> counts nanoseconds.\<close>

type_synonym Duration = int

definition Millisecond :: Duration where
  "Millisecond = 1000000"

definition Second :: Duration where
  "Second = 1000 * Millisecond"

definition Hour :: Duration where
  "Hour = 3600 * Second"

record Sampler =
  SamplingRateGlobal :: float64

text \<open>
  The stages a chain can hold, named after the method values \<open>RegHTTPHandler\<close> appends:
  \<open>closeResource.Close\<close> with its rules (service, patterns), \<open>PenetrateErrorTracing\<close>,
  \<open>keepRareResource.Keep\<close> with its switch and window, and \<open>sampler.Sample\<close>.
\<close>

datatype trace_filter =
    CloseResource_Close "(string \<times> string list) list"
  | PenetrateErrorTracing
  | KeepRareResource_Keep bool Duration
  | Sampler_Sample Sampler

text \<open>
  Modelled from the spec: the private state of the stateful stages, which is the
  rare-resource cache (the time a (service, resource) pair was last seen) and the number
  of random draws the sampler has used.
\<close>

record filter_state =
  presentMap :: "string \<times> string \<rightharpoonup> int"
  draws_used :: nat

text \<open>
  Modelled from the spec: what a chain invocation reads from outside, which is the
  current time in nanoseconds, the sampler's random source (draw \<open>i\<close> is a number in
  the unit interval) and the regular expression matcher (pattern, text).
\<close>

record chain_env =
  now :: int
  draw :: "nat \<Rightarrow> real"
  re_match :: "string \<Rightarrow> string \<Rightarrow> bool"

text \<open>
  Modelled from the spec: \<open>CloseResource.Close\<close> is missing from the sources at hand.
  A span is closed when a rule of its service, or of the wildcard service \<open>*\<close>, has a
  pattern that matches its resource; closed spans are dropped unconditionally.
\<close>

definition closed :: "(string \<Rightarrow> string \<Rightarrow> bool) \<Rightarrow> (string \<times> string list) list \<Rightarrow> Span \<Rightarrow> bool" where
  "closed matches rules s =
     list_ex (\<lambda>(svc, patterns). (svc = ''*'' \<or> svc = service s) \<and>
                list_ex (\<lambda>p. matches p (resource s)) patterns) rules"

definition Close :: "(string \<Rightarrow> string \<Rightarrow> bool) \<Rightarrow> (string \<times> string list) list \<Rightarrow>
    annotated_span list \<Rightarrow> annotated_span list" where
  "Close matches rules spans = filter (\<lambda>(s, keep). \<not> closed matches rules s) spans"

text \<open>
  Modelled from the spec: \<open>PenetrateErrorTracing\<close> is missing from the sources at hand.
  It marks error-flagged spans as force-kept and drops nothing.
\<close>

definition PenetrateError :: "annotated_span list \<Rightarrow> annotated_span list" where
  "PenetrateError spans = map (\<lambda>(s, keep). (s, keep \<or> error_flag s)) spans"

text \<open>
  Modelled from the spec: \<open>KeepRareResource.Keep\<close> is missing from the sources at hand.
  The cache holds, for each (service, resource) pair, the time it was last seen. A span
  whose pair was not seen within the window is the first occurrence and is force-kept;
  any other span passes with its annotation unchanged. Every occurrence refreshes the
  pair's time (a resource is rare when it has not been present for the window's length).
\<close>

fun Keep :: "int \<Rightarrow> Duration \<Rightarrow> (string \<times> string \<rightharpoonup> int) \<Rightarrow> annotated_span list \<Rightarrow>
    (string \<times> string \<rightharpoonup> int) \<times> annotated_span list" where
  "Keep t window cache [] = (cache, [])"
| "Keep t window cache ((s, keep) # spans) =
     (let pair = (service s, resource s);
          rare = (case cache pair of None \<Rightarrow> True | Some seen \<Rightarrow> window \<le> t - seen);
          (cache', out) = Keep t window (cache(pair \<mapsto> t)) spans
      in (cache', (s, keep \<or> rare) # out))"

text \<open>
  Modelled from the spec: \<open>Sampler.Sample\<close> is missing from the sources at hand. A
  force-kept span survives whatever the sampler draws. For any other span the sampler
  takes its next draw \<open>u\<close> and keeps the span when \<open>u\<close> is below the configured rate, so
  that with draws uniform in the unit interval the rate is the keep probability.
\<close>

fun Sample :: "float64 \<Rightarrow> (nat \<Rightarrow> real) \<Rightarrow> nat \<Rightarrow> annotated_span list \<Rightarrow>
    nat \<times> annotated_span list" where
  "Sample rate rnd n [] = (n, [])"
| "Sample rate rnd n ((s, keep) # spans) =
     (if keep
      then (let (n', out) = Sample rate rnd n spans in (n', (s, keep) # out))
      else (let (n', out) = Sample rate rnd (Suc n) spans
            in (n', if float64_less (Finite (rnd n)) rate then (s, keep) # out else out)))"

text \<open>
  Modelled from the spec: one stage applied to the filter state and the span list it
  receives. A keeper that is switched off passes the spans as they are.
\<close>

fun run_filter :: "chain_env \<Rightarrow> trace_filter \<Rightarrow> filter_state \<times> annotated_span list \<Rightarrow>
    filter_state \<times> annotated_span list" where
  "run_filter env (CloseResource_Close rules) (st, spans) = (st, Close (re_match env) rules spans)"
| "run_filter env PenetrateErrorTracing (st, spans) = (st, PenetrateError spans)"
| "run_filter env (KeepRareResource_Keep opened window) (st, spans) =
     (if opened
      then (let (cache', out) = Keep (now env) window (presentMap st) spans
            in (st\<lparr>presentMap := cache'\<rparr>, out))
      else (st, spans))"
| "run_filter env (Sampler_Sample smp) (st, spans) =
     (let (n', out) = Sample (SamplingRateGlobal smp) (draw env) (draws_used st) spans
      in (st\<lparr>draws_used := n'\<rparr>, out))"

text \<open>
  Modelled from the spec: \<open>AfterGather\<close>, \<open>NewAfterGather\<close> with its options,
  \<open>AppendFilter\<close> and \<open>Run\<close> are missing from the sources at hand. An \<open>AfterGather\<close> is
  built from a logger, a feeder, extra tags and an optional retry interval;
  \<open>AppendFilter\<close> appends a stage; a run passes the spans through the stages in append
  order, each stage receiving what the stage before it returned, and hands a non-empty
  result to the feeder (an empty result skips the feed call).
\<close>

record ('f, 't) AfterGather =
  ag_logger :: bool
  ag_retry :: "Duration option"
  ag_extra_tags :: "'t option"
  ag_feeder :: "'f option"
  ag_filters :: "trace_filter list"

datatype ('f, 't) ag_option =
    WithLogger
  | WithRetry Duration
  | WithPointOptions 't
  | WithFeeder 'f

fun apply_ag_option :: "('f, 't) AfterGather \<Rightarrow> ('f, 't) ag_option \<Rightarrow> ('f, 't) AfterGather" where
  "apply_ag_option ag WithLogger = ag\<lparr>ag_logger := True\<rparr>"
| "apply_ag_option ag (WithRetry d) = ag\<lparr>ag_retry := Some d\<rparr>"
| "apply_ag_option ag (WithPointOptions t) = ag\<lparr>ag_extra_tags := Some t\<rparr>"
| "apply_ag_option ag (WithFeeder f) = ag\<lparr>ag_feeder := Some f\<rparr>"

definition NewAfterGather :: "('f, 't) ag_option list \<Rightarrow> ('f, 't) AfterGather" where
  "NewAfterGather opts =
     foldl apply_ag_option
       \<lparr>ag_logger = False, ag_retry = None, ag_extra_tags = None, ag_feeder = None,
        ag_filters = []\<rparr> opts"

definition AppendFilter :: "('f, 't) AfterGather \<Rightarrow> trace_filter \<Rightarrow> ('f, 't) AfterGather" where
  "AppendFilter ag f = ag\<lparr>ag_filters := ag_filters ag @ [f]\<rparr>"

definition run_filters :: "chain_env \<Rightarrow> ('f, 't) AfterGather \<Rightarrow>
    filter_state \<times> annotated_span list \<Rightarrow> filter_state \<times> annotated_span list" where
  "run_filters env ag x = fold (run_filter env) (ag_filters ag) x"

text \<open>
  Modelled from the spec: \<open>Run\<close> on freshly decoded spans, none of which is force-kept
  on entry. The result is the new filter state and what is handed to the feeder, \<open>None\<close>
  when the feed call is skipped.
\<close>

definition Run :: "chain_env \<Rightarrow> ('f, 't) AfterGather \<Rightarrow> filter_state \<Rightarrow> Span list \<Rightarrow>
    filter_state \<times> Span list option" where
  "Run env ag st spans =
     (let (st', out) = run_filters env ag (st, map (\<lambda>s. (s, False)) spans)
      in (st', if out = [] then None else Some (map fst out)))"

text \<open>The spans that reach the feed call: none when it is skipped.\<close>

definition fed_spans :: "Span list option \<Rightarrow> Span list" where
  "fed_spans handed = (case handed of None \<Rightarrow> [] | Some out \<Rightarrow> out)"

section \<open>Packages storage and workerpool as the jaeger input uses them\<close>

type_synonym byte = "8 word"

text \<open>
  The protobuf message \<open>storage.Request\<close> with the fields the replay consumer reads;
  \<open>'e\<close> is the type of its map-entry fields. The \<open>int32\<close> and \<open>int64\<close> fields are
  words read as signed (\<open>sint\<close>).
\<close>

record 'e Request_pb =
  pb_Method :: string
  pb_Proto :: string
  pb_ProtoMajor :: "32 word"
  pb_ProtoMinor :: "32 word"
  pb_Header :: 'e
  pb_Body :: "byte list"
  pb_ContentLength :: "64 word"
  pb_TransferEncoding :: "string list"
  pb_Close :: bool
  pb_Host :: string
  pb_Form :: 'e
  pb_PostForm :: 'e
  pb_RemoteAddr :: string
  pb_RequestUri :: string
  pb_Url :: string

text \<open>
  \<open>http.Request\<close> with the fields the consumer sets; \<open>'m\<close> is the multimap type of
  headers and forms, \<open>'u\<close> the parsed URL, \<open>None\<close> the nil pointer.
\<close>

record ('m, 'u) Request =
  Method :: string
  Proto :: string
  ProtoMajor :: int
  ProtoMinor :: int
  Header :: 'm
  Body :: "byte list"
  ContentLength :: "64 word"
  TransferEncoding :: "string list"
  Close_conn :: bool
  Host :: string
  Form :: 'm
  PostForm :: 'm
  RemoteAddr :: string
  RequestURI :: string
  URL :: "'u option"

datatype 'rw ResponseWriter = NopResponseWriter | ResponseWriter 'rw

type_synonym ('rw, 'm, 'u, 'w) http_handler = "'rw ResponseWriter \<Rightarrow> ('m, 'u) Request \<Rightarrow> 'w \<Rightarrow> 'w"

type_synonym 'w consumer = "byte list \<Rightarrow> 'w \<Rightarrow> error option \<times> 'w"

datatype storage_key = HTTP_KEY | OTHER_KEY nat

text \<open>
  Modelled from the spec: \<open>storage.Storage\<close> and its methods are missing from the
  sources at hand. An instance is enabled or not for its whole lifetime, binds at most
  one consumer to a key (registering a key again is an error and leaves the binding as
  it was), and runs one consume worker.
\<close>

record 'c Storage =
  st_enabled :: bool
  st_consumers :: "(storage_key \<times> 'c) list"
  st_consume_worker :: bool

definition Enabled :: "'c Storage \<Rightarrow> bool" where
  "Enabled c = st_enabled c"

definition RegisterConsumer :: "'c Storage \<Rightarrow> storage_key \<Rightarrow> 'c \<Rightarrow> 'c Storage" where
  "RegisterConsumer c key fn =
     (case map_of (st_consumers c) key of
        Some bound \<Rightarrow> c
      | None \<Rightarrow> c\<lparr>st_consumers := st_consumers c @ [(key, fn)]\<rparr>)"

text \<open>
  Modelled from the spec: the handling of a request whose feed failed belongs to
  \<open>httpapi.HTTPStorageWrapper\<close> and \<open>Storage.Put\<close>, missing from the sources at hand.
  The request is buffered if the storage is present, enabled and accepts the write
  (\<open>Put\<close> returns nil), and is logged and dropped otherwise.
\<close>

datatype feed_failure_handling = Buffered | LoggedAndDropped

definition on_feed_failure :: "'c Storage option \<Rightarrow> error option \<Rightarrow> feed_failure_handling" where
  "on_feed_failure cache put_result =
     (case cache of
        None \<Rightarrow> LoggedAndDropped
      | Some c \<Rightarrow> if Enabled c \<and> put_result = None then Buffered else LoggedAndDropped)"

record WorkerPoolConfig =
  Buffer :: int
  Threads :: int

record StorageConfig =
  Path :: string
  Capacity :: int

text \<open>
  Modelled from the spec: \<open>workerpool.WorkerPool\<close> is missing from the sources at hand;
  here it is its configuration and whether \<open>Start\<close> has spawned the workers.
\<close>

record WorkerPool =
  wp_config :: WorkerPoolConfig
  wp_running :: bool

section \<open>Package jaeger: RegHTTPHandler\<close>

text \<open>
  Source: the jaeger part of \<open>src/internal/plugins/inputs/tomcat/input.go\<close>, lines 307
  to 402.
\<close>

text \<open>The fields of the input that \<open>RegHTTPHandler\<close> reads.\<close>

record ('f, 't) Input =
  Endpoint :: string
  KeepRareResource :: bool
  CloseResource :: "(string \<times> string list) list"
  Sampler :: "Sampler option"
  WPConfig :: "WorkerPoolConfig option"
  LocalCacheConfig :: "StorageConfig option"
  feeder :: 'f
  HostTags :: 't

text \<open>
  What \<open>RegHTTPHandler\<close> and its replay consumer call outside the sources at hand: the
  constructors and starters of pool and storage (with their outcome), the protobuf
  decoder, \<open>storage.ConvertMapEntriesToMap\<close>, \<open>url.Parse\<close>, the request handler
  \<open>handleJaegerTrace\<close> of the same package, \<open>httpStatusRespFunc\<close> and the two wrappers
  around the handler. A constructor that fails returns a nil pointer with its error.
\<close>

record ('e, 'm, 'u, 'rw, 'w, 'g, 'rf) jaeger_ext =
  NewWorkerPool :: "WorkerPoolConfig \<Rightarrow> error + WorkerPool"
  Start :: "WorkerPool \<Rightarrow> error option"
  NewStorage :: "StorageConfig \<Rightarrow> error + 'w consumer Storage"
  RunConsumeWorker :: "'w consumer Storage \<Rightarrow> error option"
  Unmarshal :: "byte list \<Rightarrow> error + 'e Request_pb"
  ConvertMapEntriesToMap :: "'e \<Rightarrow> 'm"
  url_Parse :: "string \<Rightarrow> error + 'u"
  handleJaegerTrace :: "('rw, 'm, 'u, 'w) http_handler"
  httpStatusRespFunc :: 'rf
  HTTPWrapper :: "'rf \<Rightarrow> WorkerPool option \<Rightarrow> 'g \<Rightarrow> 'g"
  HTTPStorageWrapper :: "storage_key \<Rightarrow> 'rf \<Rightarrow> 'w consumer Storage option \<Rightarrow>
      ('rw, 'm, 'u, 'w) http_handler \<Rightarrow> 'g"

text \<open>
  Lines 328 to 346: the request built from the decoded payload. \<open>url.Parse\<close> returns a
  nil URL with its error; the error is logged and the request keeps the nil URL.
\<close>

definition replay_request ::
  "('e, 'm, 'u, 'rw, 'w, 'g, 'rf) jaeger_ext \<Rightarrow> 'e Request_pb \<Rightarrow> ('m, 'u) Request" where
  "replay_request ext reqpb =
     (let req = \<lparr>Method = pb_Method reqpb,
                 Proto = pb_Proto reqpb,
                 ProtoMajor = sint (pb_ProtoMajor reqpb),
                 ProtoMinor = sint (pb_ProtoMinor reqpb),
                 Header = ConvertMapEntriesToMap ext (pb_Header reqpb),
                 Body = pb_Body reqpb,
                 ContentLength = pb_ContentLength reqpb,
                 TransferEncoding = pb_TransferEncoding reqpb,
                 Close_conn = pb_Close reqpb,
                 Host = pb_Host reqpb,
                 Form = ConvertMapEntriesToMap ext (pb_Form reqpb),
                 PostForm = ConvertMapEntriesToMap ext (pb_PostForm reqpb),
                 RemoteAddr = pb_RemoteAddr reqpb,
                 RequestURI = pb_RequestUri reqpb,
                 URL = None\<rparr>
      in case url_Parse ext (pb_Url reqpb) of
           Inl err \<Rightarrow> req\<lparr>URL := None\<rparr>
         | Inr u \<Rightarrow> req\<lparr>URL := Some u\<rparr>)"

text \<open>
  Lines 322 to 353: the function registered as consumer of \<open>storage.HTTP_KEY\<close>. It
  returns the error it reports to the storage (\<open>None\<close> is nil) and the world after the
  handler has run. Calls to the logger are left out here and below.
\<close>

definition replay_consumer ::
  "('e, 'm, 'u, 'rw, 'w, 'g, 'rf) jaeger_ext \<Rightarrow> 'w consumer" where
  "replay_consumer ext buf w =
     (case Unmarshal ext buf of
        Inl err \<Rightarrow> (Some err, w)
      | Inr reqpb \<Rightarrow>
          (let req = replay_request ext reqpb;
               w' = handleJaegerTrace ext NopResponseWriter req w
           in (None, w')))"

text \<open>
  The package-level variables \<open>RegHTTPHandler\<close> assigns, and the routes registered with
  \<open>httpapi.RegHTTPHandler\<close> (method, path, handler).
\<close>

record ('w, 'g, 'f, 't) jaeger_globals =
  wkpool :: "WorkerPool option"
  localCache :: "'w consumer Storage option"
  afterGatherRun :: "('f, 't) AfterGather option"
  http_routes :: "(string \<times> string \<times> 'g) list"

definition httpapi_RegHTTPHandler ::
  "string \<Rightarrow> string \<Rightarrow> 'g \<Rightarrow> ('w, 'g, 'f, 't) jaeger_globals \<Rightarrow> ('w, 'g, 'f, 't) jaeger_globals" where
  "httpapi_RegHTTPHandler method path h g = g\<lparr>http_routes := http_routes g @ [(method, path, h)]\<rparr>"

text \<open>Lines 311 to 317: the worker pool.\<close>

definition setup_wkpool ::
  "('e, 'm, 'u, 'rw, 'w, 'g, 'rf) jaeger_ext \<Rightarrow> ('f, 't) Input \<Rightarrow>
   ('w, 'g, 'f, 't) jaeger_globals \<Rightarrow> ('w, 'g, 'f, 't) jaeger_globals" where
  "setup_wkpool ext ipt g =
     (case WPConfig ipt of
        None \<Rightarrow> g
      | Some cfg \<Rightarrow>
          (case NewWorkerPool ext cfg of
             Inl err \<Rightarrow> g\<lparr>wkpool := None\<rparr>
           | Inr pool \<Rightarrow>
               (case Start ext pool of
                  Some err \<Rightarrow> g\<lparr>wkpool := Some pool\<rparr>
                | None \<Rightarrow> g\<lparr>wkpool := Some (pool\<lparr>wp_running := True\<rparr>)\<rparr>)))"

text \<open>Lines 318 to 358: the local cache, its consumer and its consume worker.\<close>

definition setup_localCache ::
  "('e, 'm, 'u, 'rw, 'w, 'g, 'rf) jaeger_ext \<Rightarrow> ('f, 't) Input \<Rightarrow>
   ('w, 'g, 'f, 't) jaeger_globals \<Rightarrow> ('w, 'g, 'f, 't) jaeger_globals" where
  "setup_localCache ext ipt g =
     (case LocalCacheConfig ipt of
        None \<Rightarrow> g
      | Some cfg \<Rightarrow>
          (case NewStorage ext cfg of
             Inl err \<Rightarrow> g\<lparr>localCache := None\<rparr>
           | Inr cache \<Rightarrow>
               (let cache = RegisterConsumer cache HTTP_KEY (replay_consumer ext)
                in case RunConsumeWorker ext cache of
                     Some err \<Rightarrow> g\<lparr>localCache := Some cache\<rparr>
                   | None \<Rightarrow> g\<lparr>localCache := Some (cache\<lparr>st_consume_worker := True\<rparr>)\<rparr>)))"

text \<open>Lines 360 to 371: the chain, with a retry interval when the cache is usable.\<close>

definition new_afterGather ::
  "('f, 't) Input \<Rightarrow> ('w, 'g, 'f, 't) jaeger_globals \<Rightarrow> ('f, 't) AfterGather" where
  "new_afterGather ipt g =
     (if localCache g \<noteq> None \<and> Enabled (the (localCache g))
      then NewAfterGather
             [WithLogger, WithRetry (100 * Millisecond), WithPointOptions (HostTags ipt),
              WithFeeder (feeder ipt)]
      else NewAfterGather [WithLogger, WithPointOptions (HostTags ipt), WithFeeder (feeder ipt)])"

text \<open>
  Lines 374 to 394: the filters, appended in this order. \<open>UpdateIgnResList\<close>,
  \<open>UpdateStatus\<close> and \<open>Init\<close> set up the stage from the configured value.
\<close>

definition append_filters :: "('f, 't) Input \<Rightarrow> ('f, 't) AfterGather \<Rightarrow> ('f, 't) AfterGather" where
  "append_filters ipt afterGather =
     (let afterGather =
            (if length (CloseResource ipt) \<noteq> 0
             then AppendFilter afterGather (CloseResource_Close (CloseResource ipt))
             else afterGather);
          afterGather = AppendFilter afterGather PenetrateErrorTracing;
          afterGather =
            (if KeepRareResource ipt
             then AppendFilter afterGather (KeepRareResource_Keep (KeepRareResource ipt) Hour)
             else afterGather)
      in case Sampler ipt of
           None \<Rightarrow> afterGather
         | Some smp \<Rightarrow>
             if float64_le (Finite 0) (SamplingRateGlobal smp) \<and>
                float64_le (SamplingRateGlobal smp) (Finite 1)
             then AppendFilter afterGather (Sampler_Sample smp)
             else afterGather)"

text \<open>
  \<open>RegHTTPHandler\<close>. \<open>afterGatherRun\<close> is assigned the pointer before the filters are
  appended, so it holds the chain with its filters.
\<close>

definition RegHTTPHandler ::
  "('e, 'm, 'u, 'rw, 'w, 'g, 'rf) jaeger_ext \<Rightarrow> ('f, 't) Input \<Rightarrow>
   ('w, 'g, 'f, 't) jaeger_globals \<Rightarrow> ('w, 'g, 'f, 't) jaeger_globals" where
  "RegHTTPHandler ext ipt g =
     (let g = setup_wkpool ext ipt g;
          g = setup_localCache ext ipt g;
          afterGather = append_filters ipt (new_afterGather ipt g);
          g = g\<lparr>afterGatherRun := Some afterGather\<rparr>
      in if Endpoint ipt \<noteq> []
         then httpapi_RegHTTPHandler ''POST'' (Endpoint ipt)
                (HTTPWrapper ext (httpStatusRespFunc ext) (wkpool g)
                   (HTTPStorageWrapper ext HTTP_KEY (httpStatusRespFunc ext) (localCache g)
                      (handleJaegerTrace ext))) g
         else g)"

section \<open>Concrete instances\<close>

text \<open>
  Instances of the parameters above, for evaluating the definitions at concrete inputs.
  \<open>url_Parse_ctl\<close> stands in for \<open>url.Parse\<close>: like it, it rejects a URL that has an
  ASCII control byte before its fragment; it returns any other string as it is.
\<close>

definition url_Parse_ctl :: "string \<Rightarrow> error + string" where
  "url_Parse_ctl rawURL =
     (if list_ex (\<lambda>c. (of_char c :: nat) < 32 \<or> (of_char c :: nat) = 127)
           (takeWhile (\<lambda>c. c \<noteq> CHR ''#'') rawURL)
      then Inl (Error ''net/url: invalid control character in URL'')
      else Inr rawURL)"

definition example_payload :: "(string \<times> string list) list Request_pb" where
  "example_payload =
     \<lparr>pb_Method = ''POST'', pb_Proto = ''HTTP/1.1'', pb_ProtoMajor = 1, pb_ProtoMinor = 1,
      pb_Header = [(''Content-Type'', [''application/x-thrift''])], pb_Body = [1, 2, 3],
      pb_ContentLength = 3, pb_TransferEncoding = [], pb_Close = False,
      pb_Host = ''localhost:9529'', pb_Form = [], pb_PostForm = [],
      pb_RemoteAddr = ''127.0.0.1:5000'', pb_RequestUri = ''/apis/traces'',
      pb_Url = ''/apis/traces''\<rparr>"

text \<open>
  A stand-in decoder: the empty buffer does not decode; any other buffer decodes to the
  example payload with the rest of the buffer as body, and a first byte 0 makes the
  stored URL a line feed.
\<close>

definition example_Unmarshal :: "byte list \<Rightarrow> error + (string \<times> string list) list Request_pb" where
  "example_Unmarshal buf =
     (case buf of
        [] \<Rightarrow> Inl (Error ''proto: cannot parse invalid wire-format data'')
      | b # body \<Rightarrow>
          Inr (example_payload\<lparr>pb_Body := body,
                pb_Url := (if b = 0 then [CHR 0x0A] else ''/apis/traces'')\<rparr>))"

datatype example_route = Handler | StorageWrapped example_route | PoolWrapped example_route

text \<open>
  The world of the example is the list of request URIs handled so far, each with
  whether the request had a URL.
\<close>

definition example_ext ::
  "((string \<times> string list) list, (string \<times> string list) list, string, unit,
    (string \<times> bool) list, example_route, unit) jaeger_ext" where
  "example_ext =
     \<lparr>NewWorkerPool = (\<lambda>cfg. Inr \<lparr>wp_config = cfg, wp_running = False\<rparr>),
      Start = (\<lambda>pool. None),
      NewStorage = (\<lambda>cfg. Inr \<lparr>st_enabled = True, st_consumers = [], st_consume_worker = False\<rparr>),
      RunConsumeWorker = (\<lambda>cache. None),
      Unmarshal = example_Unmarshal,
      ConvertMapEntriesToMap = (\<lambda>entries. entries),
      url_Parse = url_Parse_ctl,
      handleJaegerTrace = (\<lambda>resp req w. w @ [(RequestURI req, URL req \<noteq> None)]),
      httpStatusRespFunc = (),
      HTTPWrapper = (\<lambda>respFunc pool next. PoolWrapped next),
      HTTPStorageWrapper = (\<lambda>key respFunc cache handler. StorageWrapped Handler)\<rparr>"

definition example_input :: "(unit, unit) Input" where
  "example_input =
     \<lparr>Endpoint = ''/apis/traces'', KeepRareResource = True,
      CloseResource = [(''*'', [''health''])],
      Sampler = Some \<lparr>SamplingRateGlobal = Finite 0\<rparr>,
      WPConfig = Some \<lparr>Buffer = 100, Threads = 8\<rparr>,
      LocalCacheConfig = Some \<lparr>Path = ''./jaeger_storage'', Capacity = 5120\<rparr>,
      feeder = (), HostTags = ()\<rparr>"

definition example_globals :: "((string \<times> bool) list, example_route, unit, unit) jaeger_globals" where
  "example_globals = \<lparr>wkpool = None, localCache = None, afterGatherRun = None, http_routes = []\<rparr>"

definition example_env :: "int \<Rightarrow> chain_env" where
  "example_env t = \<lparr>now = t, draw = (\<lambda>i. 1 / 2), re_match = (\<lambda>pattern text. pattern = text)\<rparr>"

definition example_filter_state :: filter_state where
  "example_filter_state = \<lparr>presentMap = Map.empty, draws_used = 0\<rparr>"

definition example_span :: "string \<Rightarrow> bool \<Rightarrow> Span" where
  "example_span res err =
     \<lparr>span_name = ''span'', service = ''s1'', resource = res, timestamp = 0, error_flag = err\<rparr>"

definition example_disk_env :: "(string \<times> KVs \<times> 64 word) disk_env" where
  "example_disk_env =
     \<lparr>GOOS = ''linux'', OSLinux = ''linux'', OSDarwin = ''darwin'',
      EnableLVMMapperPath = False, mergedTags = [(''host'', ''h1''), (''used_percent'', ''tag'')],
      findDisk = (\<lambda>device. Inr [''sda'']),
      GetMapperPath = (\<lambda>device. Inl (Error ''no mapper path'')),
      NewPointV2 = (\<lambda>name kvs ts. (name, kvs, ts))\<rparr>"

definition example_usage :: "64 word \<Rightarrow> 64 word \<Rightarrow> 64 word \<Rightarrow> UsageStat" where
  "example_usage tot use fre =
     \<lparr>Fstype = ''ext4'', Total = tot, Free = fre, Used = use, InodesTotal = 1000,
      InodesUsed = 10, InodesFree = 990, InodesUsedPercent = Finite 1\<rparr>"

definition example_disks :: "UsageStat option list" where
  "example_disks = [None, Some (example_usage 0 0 0), Some (example_usage 100 7 93)]"

definition example_partitions :: "PartitionStat list" where
  "example_partitions =
     [\<lparr>Device = ''/dev/sda1'', Mountpoint = ''/boot''\<rparr>,
      \<lparr>Device = ''proc'', Mountpoint = ''/proc''\<rparr>,
      \<lparr>Device = ''/dev/sda2'', Mountpoint = ''/''\<rparr>]"

section \<open>Properties of the filter chain built by RegHTTPHandler\<close>

lemma ag_filters_NewAfterGather: "ag_filters (NewAfterGather opts) = []"
proof -
  have "ag_filters (foldl apply_ag_option ag opts) = ag_filters ag" for ag :: "('a, 'b) AfterGather"
  proof (induction opts arbitrary: ag)
    case Nil
    then show ?case by simp
  next
    case (Cons a opts)
    then show ?case by (cases a) simp_all
  qed
  then show ?thesis by (simp add: NewAfterGather_def)
qed

lemma ag_filters_append_filters:
  "ag_filters (append_filters ipt ag) =
     ag_filters ag
     @ (if CloseResource ipt \<noteq> [] then [CloseResource_Close (CloseResource ipt)] else [])
     @ [PenetrateErrorTracing]
     @ (if KeepRareResource ipt then [KeepRareResource_Keep True Hour] else [])
     @ (case Sampler ipt of
          None \<Rightarrow> []
        | Some smp \<Rightarrow>
            if float64_le (Finite 0) (SamplingRateGlobal smp) \<and>
               float64_le (SamplingRateGlobal smp) (Finite 1)
            then [Sampler_Sample smp] else [])"
  by (simp add: append_filters_def AppendFilter_def Let_def split: option.split)

lemma ag_retry_append_filters: "ag_retry (append_filters ipt ag) = ag_retry ag"
  by (simp add: append_filters_def AppendFilter_def Let_def split: option.split)

lemma afterGatherRun_RegHTTPHandler:
  "afterGatherRun (RegHTTPHandler ext ipt g) =
     Some (append_filters ipt (new_afterGather ipt (setup_localCache ext ipt (setup_wkpool ext ipt g))))"
  by (simp add: RegHTTPHandler_def Let_def httpapi_RegHTTPHandler_def)

lemma localCache_RegHTTPHandler:
  "localCache (RegHTTPHandler ext ipt g) = localCache (setup_localCache ext ipt (setup_wkpool ext ipt g))"
  by (simp add: RegHTTPHandler_def Let_def httpapi_RegHTTPHandler_def)

lemma ag_retry_new_afterGather:
  "ag_retry (new_afterGather ipt g) =
     (if localCache g \<noteq> None \<and> Enabled (the (localCache g)) then Some (100 * Millisecond) else None)"
  by (simp add: new_afterGather_def NewAfterGather_def)

lemma ag_filters_new_afterGather: "ag_filters (new_afterGather ipt g) = []"
  by (simp add: new_afterGather_def ag_filters_NewAfterGather)

lemma run_filters_AppendFilter:
  "run_filters env (AppendFilter ag f) x = run_filter env f (run_filters env ag x)"
  by (simp add: run_filters_def AppendFilter_def)

lemma ag_filters_RegHTTPHandler:
  "\<exists>ag. afterGatherRun (RegHTTPHandler ext ipt g) = Some ag \<and>
      ag_filters ag =
        (if length (CloseResource ipt) \<noteq> 0 then [CloseResource_Close (CloseResource ipt)] else [])
        @ [PenetrateErrorTracing]
        @ (if KeepRareResource ipt then [KeepRareResource_Keep True Hour] else [])
        @ (case Sampler ipt of
             None \<Rightarrow> []
           | Some smp \<Rightarrow>
               if float64_le (Finite 0) (SamplingRateGlobal smp) \<and>
                  float64_le (SamplingRateGlobal smp) (Finite 1)
               then [Sampler_Sample smp] else [])"
  by (simp add: afterGatherRun_RegHTTPHandler ag_filters_append_filters ag_filters_new_afterGather)

text \<open>
  C1. \<open>RegHTTPHandler\<close> leaves in \<open>afterGatherRun\<close> a chain whose filters are, in this
  order: \<open>CloseResource\<close> (present exactly when close-resource rules are configured),
  \<open>PenetrateErrorTracing\<close> (always), \<open>KeepRareResource\<close> (present exactly when
  keep-rare-resource is on), the sampler (present exactly when one is configured with a
  rate from 0 to 1). A chain executes its filters in append order: a new chain returns
  its input, and a chain with a filter appended applies that filter to what the chain
  before it returned.
\<close>

theorem RegHTTPHandler_filter_order:
  "(\<exists>ag. afterGatherRun (RegHTTPHandler ext ipt g) = Some ag \<and>
      ag_filters ag =
        (if length (CloseResource ipt) \<noteq> 0 then [CloseResource_Close (CloseResource ipt)] else [])
        @ [PenetrateErrorTracing]
        @ (if KeepRareResource ipt then [KeepRareResource_Keep True Hour] else [])
        @ (case Sampler ipt of
             None \<Rightarrow> []
           | Some smp \<Rightarrow>
               if float64_le (Finite 0) (SamplingRateGlobal smp) \<and>
                  float64_le (SamplingRateGlobal smp) (Finite 1)
               then [Sampler_Sample smp] else []))
   \<and> run_filters env (NewAfterGather opts) x = x
   \<and> run_filters env (AppendFilter ag' f) x = run_filter env f (run_filters env ag' x)"
proof (intro conjI)
  show "\<exists>ag. afterGatherRun (RegHTTPHandler ext ipt g) = Some ag \<and>
      ag_filters ag =
        (if length (CloseResource ipt) \<noteq> 0 then [CloseResource_Close (CloseResource ipt)] else [])
        @ [PenetrateErrorTracing]
        @ (if KeepRareResource ipt then [KeepRareResource_Keep True Hour] else [])
        @ (case Sampler ipt of
             None \<Rightarrow> []
           | Some smp \<Rightarrow>
               if float64_le (Finite 0) (SamplingRateGlobal smp) \<and>
                  float64_le (SamplingRateGlobal smp) (Finite 1)
               then [Sampler_Sample smp] else [])"
    by (rule ag_filters_RegHTTPHandler)
  show "run_filters env (NewAfterGather opts) x = x"
    by (simp add: run_filters_def ag_filters_NewAfterGather)
  show "run_filters env (AppendFilter ag' f) x = run_filter env f (run_filters env ag' x)"
    by (rule run_filters_AppendFilter)
qed

theorem RegHTTPHandler_filter_order_witness:
  "(\<exists>ag. afterGatherRun (RegHTTPHandler example_ext example_input example_globals) = Some ag \<and>
      ag_filters ag =
        [CloseResource_Close [(''*'', [''health''])], PenetrateErrorTracing,
         KeepRareResource_Keep True Hour, Sampler_Sample \<lparr>SamplingRateGlobal = Finite 0\<rparr>])
   \<and> run_filters (example_env 0)
        (AppendFilter (NewAfterGather [WithLogger :: (unit, unit) ag_option]) PenetrateErrorTracing)
        (\<lparr>presentMap = Map.empty, draws_used = 0\<rparr>, [(example_span ''r1'' True, False)])
      = (\<lparr>presentMap = Map.empty, draws_used = 0\<rparr>, [(example_span ''r1'' True, True)])"
proof -
  note order = RegHTTPHandler_filter_order [of example_ext example_input example_globals
      "example_env 0" "[WithLogger]"
      "(\<lparr>presentMap = Map.empty, draws_used = 0\<rparr>, [(example_span ''r1'' True, False)])"
      "NewAfterGather [WithLogger]" PenetrateErrorTracing]
  from order [THEN conjunct1] have filters:
    "\<exists>ag. afterGatherRun (RegHTTPHandler example_ext example_input example_globals) = Some ag \<and>
      ag_filters ag =
        [CloseResource_Close [(''*'', [''health''])], PenetrateErrorTracing,
         KeepRareResource_Keep True Hour, Sampler_Sample \<lparr>SamplingRateGlobal = Finite 0\<rparr>]"
    by (simp add: example_input_def)
  have "run_filters (example_env 0)
        (AppendFilter (NewAfterGather [WithLogger :: (unit, unit) ag_option]) PenetrateErrorTracing)
        (\<lparr>presentMap = Map.empty, draws_used = 0\<rparr>, [(example_span ''r1'' True, False)])
      = (\<lparr>presentMap = Map.empty, draws_used = 0\<rparr>, [(example_span ''r1'' True, True)])"
    unfolding order [THEN conjunct2, THEN conjunct2] order [THEN conjunct2, THEN conjunct1]
    by (simp add: PenetrateError_def example_span_def)
  with filters show ?thesis by (rule conjI)
qed

section \<open>Sampler and rare-resource keeper\<close>

lemma Sample_force_kept: "filter snd (snd (Sample rate rnd n spans)) = filter snd spans"
proof (induction spans arbitrary: n)
  case Nil
  then show ?case by simp
next
  case (Cons a spans)
  obtain s keep where a: "a = (s, keep)" by (cases a)
  show ?case
  proof (cases keep)
    case True
    with a Cons[of n] show ?thesis by (simp add: split_beta)
  next
    case False
    with a Cons[of "Suc n"] show ?thesis by (simp add: split_beta)
  qed
qed

lemma Sample_rate_0:
  assumes "\<forall>i. 0 \<le> rnd i"
  shows "snd (Sample (Finite 0) rnd n spans) = filter snd spans"
proof (induction spans arbitrary: n)
  case Nil
  then show ?case by simp
next
  case (Cons a spans)
  obtain s keep where a: "a = (s, keep)" by (cases a)
  have "\<not> rnd n < 0" using assms by (simp add: not_less)
  with a Cons[of n] Cons[of "Suc n"] show ?case by (cases keep) (simp_all add: split_beta)
qed

lemma Sample_rate_1:
  assumes "\<forall>i. rnd i < 1"
  shows "snd (Sample (Finite 1) rnd n spans) = spans"
proof (induction spans arbitrary: n)
  case Nil
  then show ?case by simp
next
  case (Cons a spans)
  obtain s keep where a: "a = (s, keep)" by (cases a)
  have "rnd n < 1" using assms by simp
  with a Cons[of n] Cons[of "Suc n"] show ?case by (cases keep) (simp_all add: split_beta)
qed

lemma snd_run_filter_Sampler:
  "snd (run_filter env (Sampler_Sample smp) (st, spans)) =
   snd (Sample (SamplingRateGlobal smp) (draw env) (draws_used st) spans)"
  by (simp add: split_beta)

lemma float64_unit_interval:
  "(float64_le (Finite 0) x \<and> float64_le x (Finite 1)) = (\<exists>r. x = Finite r \<and> 0 \<le> r \<and> r \<le> 1)"
  by (cases x) auto

lemma Run_filters:
  "Run env ag st spans =
     (let (st', out) = fold (run_filter env) (ag_filters ag) (st, map (\<lambda>s. (s, False)) spans)
      in (st', if out = [] then None else Some (map fst out)))"
  by (simp add: Run_def run_filters_def)

lemma filter_snd_PenetrateError:
  "map fst (filter snd (PenetrateError (map (\<lambda>s. (s, False)) spans))) = filter error_flag spans"
  by (induction spans) (simp_all add: PenetrateError_def)

lemma Keep_error_kept:
  "\<forall>(s, k) \<in> set xs. error_flag s \<longrightarrow> k \<Longrightarrow>
   filter error_flag (map fst (filter snd (snd (Keep t w c xs)))) = filter error_flag (map fst xs)"
proof (induction xs arbitrary: c)
  case Nil
  then show ?case by simp
next
  case (Cons a xs)
  obtain s k where a: "a = (s, k)" by (cases a)
  from Cons.prems have rest: "\<forall>(s, k) \<in> set xs. error_flag s \<longrightarrow> k" by simp
  from Cons.prems a have k: "error_flag s \<longrightarrow> k" by simp
  have ih: "filter error_flag
              (map fst (filter snd (snd (Keep t w (c((service s, resource s) \<mapsto> t)) xs))))
            = filter error_flag (map fst xs)"
    using rest by (rule Cons.IH)
  show ?case unfolding a using ih k by (simp add: split_beta Let_def)
qed

lemma PenetrateError_marks: "\<forall>(s, k) \<in> set (PenetrateError xs). error_flag s \<longrightarrow> k"
  by (auto simp: PenetrateError_def)

lemma map_fst_PenetrateError: "map fst (PenetrateError xs) = map fst xs"
  by (induction xs) (auto simp: PenetrateError_def)

lemma Close_unmarked:
  "Close m rules (map (\<lambda>s. (s, False)) traces) =
   map (\<lambda>s. (s, False)) (filter (\<lambda>s. \<not> closed m rules s) traces)"
  by (induction traces) (simp_all add: Close_def)

lemma fed_spans_Run:
  "fed_spans (snd (Run env ag st traces)) =
   map fst (snd (fold (run_filter env) (ag_filters ag) (st, map (\<lambda>s. (s, False)) traces)))"
  by (simp add: fed_spans_def Run_filters split_beta Let_def)

lemma Keep_first:
  assumes "cache (service s, resource s) = None \<or>
           (\<exists>seen. cache (service s, resource s) = Some seen \<and> window \<le> t - seen)"
  shows "Keep t window cache [(s, keep)] = (cache((service s, resource s) \<mapsto> t), [(s, True)])"
  using assms by (auto simp: Let_def)

lemma Keep_again:
  assumes "cache (service s, resource s) = Some seen" "t - seen < window"
  shows "Keep t window cache [(s, keep)] = (cache((service s, resource s) \<mapsto> t), [(s, keep)])"
  using assms by (auto simp: Let_def)

lemma Hour_ns: "Hour = 3600000000000"
  by (simp add: Hour_def Second_def Millisecond_def)

lemma Second_ns: "Second = 1000000000"
  by (simp add: Second_def Millisecond_def)


lemma upt_0_Suc: "[0..<Suc m] = 0 # map Suc [0..<m]"
  by (simp add: upt_conv_Cons map_Suc_upt del: upt_Suc)

lemma Sample_batch:
  "Sample rate rnd n spans =
     (n + length (filter (\<lambda>x. \<not> snd x) spans),
      [spans ! j. j \<leftarrow> [0..<length spans],
         snd (spans ! j) \<or>
         float64_less (Finite (rnd (n + length (filter (\<lambda>x. \<not> snd x) (take j spans))))) rate])"
proof (induction spans arbitrary: n)
  case Nil
  show ?case by simp
next
  case (Cons a spans)
  obtain s keep where a: "a = (s, keep)" by (cases a)
  show ?case
  proof (cases keep)
    case True
    then have a': "a = (s, True)" using a by simp
    show ?thesis
      unfolding a' length_Cons upt_0_Suc
      by (simp add: Cons.IH[of n] comp_def cong: if_cong)
  next
    case False
    then have a': "a = (s, False)" using a by simp
    show ?thesis
      unfolding a' length_Cons upt_0_Suc
      by (simp add: Cons.IH[of "Suc n"] comp_def cong: if_cong)
  qed
qed

lemma Keep_batch:
  "Keep t window cache spans =
     ((\<lambda>pair. if pair \<in> (\<lambda>x. (service (fst x), resource (fst x))) ` set spans then Some t
               else cache pair),
      [(fst (spans ! j),
        snd (spans ! j) \<or>
        (if (service (fst (spans ! j)), resource (fst (spans ! j)))
              \<in> (\<lambda>x. (service (fst x), resource (fst x))) ` set (take j spans)
         then window \<le> 0
         else (case cache (service (fst (spans ! j)), resource (fst (spans ! j))) of
                 None \<Rightarrow> True
               | Some seen \<Rightarrow> window \<le> t - seen))).
       j \<leftarrow> [0..<length spans]])"
proof (induction spans arbitrary: cache)
  case Nil
  show ?case by simp
next
  case (Cons a spans)
  obtain s keep where a: "a = (s, keep)" by (cases a)
  show ?case
    unfolding a length_Cons upt_0_Suc
    by (auto simp add: Cons.IH[of "cache((service s, resource s) \<mapsto> t)"] comp_def Let_def
          fun_eq_iff split: option.splits cong: if_cong)
qed


lemma closed_no_rules: "closed m [] s = False"
  by (simp add: closed_def)

lemma rate_0_chain_error_survive:
  assumes d0: "\<forall>i. 0 \<le> draw env i"
    and fs: "ag_filters ag =
        (if rules \<noteq> [] then [CloseResource_Close rules] else [])
        @ [PenetrateErrorTracing]
        @ (if kr then [KeepRareResource_Keep True Hour] else [])
        @ [Sampler_Sample \<lparr>SamplingRateGlobal = Finite 0\<rparr>]"
  shows "filter error_flag
           (map fst (snd (fold (run_filter env) (ag_filters ag) (st, map (\<lambda>s. (s, False)) traces))))
         = filter (\<lambda>s. error_flag s \<and> \<not> closed (re_match env) rules s) traces"
proof -
  define ys where "ys = filter (\<lambda>s. \<not> closed (re_match env) rules s) traces"
  define xs where "xs = PenetrateError (map (\<lambda>s. (s, False)) ys)"
  have ys: "(if rules \<noteq> [] then filter (\<lambda>s. \<not> closed (re_match env) rules s) traces else traces) = ys"
    unfolding ys_def by (simp add: closed_no_rules)
  have start: "fold (run_filter env)
                 (if rules \<noteq> [] then [CloseResource_Close rules] else [])
                 (st, map (\<lambda>s. (s, False)) traces)
               = (st, map (\<lambda>s. (s, False)) ys)"
    using ys by (auto simp add: Close_unmarked)
  have marks: "\<forall>(s, k) \<in> set xs. error_flag s \<longrightarrow> k"
    unfolding xs_def by (rule PenetrateError_marks)
  have fxs: "map fst xs = ys" unfolding xs_def by (simp add: map_fst_PenetrateError comp_def)
  have res: "filter error_flag
           (map fst (snd (fold (run_filter env) (ag_filters ag) (st, map (\<lambda>s. (s, False)) traces))))
         = filter error_flag ys"
  proof (cases kr)
    case True
    have "filter error_flag (map fst (filter snd (snd (Keep (now env) Hour (presentMap st) xs))))
          = filter error_flag (map fst xs)"
      using marks by (rule Keep_error_kept)
    then show ?thesis
      unfolding fs fold_append comp_def start using True Sample_rate_0[OF d0] fxs
      by (simp add: split_beta xs_def)
  next
    case False
    show ?thesis
      unfolding fs fold_append comp_def start
      using False Sample_rate_0[OF d0] filter_snd_PenetrateError[of ys]
      by (simp add: split_beta)
  qed
  show ?thesis unfolding res ys_def by (simp add: conj_commute)
qed

lemma rate_0_chain_non_error_dropped:
  assumes d0: "\<forall>i. 0 \<le> draw env i"
    and fs: "ag_filters ag = (if rules \<noteq> [] then [CloseResource_Close rules] else [])
        @ [PenetrateErrorTracing] @ [Sampler_Sample \<lparr>SamplingRateGlobal = Finite 0\<rparr>]"
  shows "list_all error_flag
           (map fst (snd (fold (run_filter env) (ag_filters ag) (st, map (\<lambda>s. (s, False)) traces))))"
proof -
  define ys where "ys = (if rules \<noteq> [] then filter (\<lambda>s. \<not> closed (re_match env) rules s) traces
                         else traces)"
  have "map fst (snd (fold (run_filter env) (ag_filters ag) (st, map (\<lambda>s. (s, False)) traces)))
        = map fst (filter snd (PenetrateError (map (\<lambda>s. (s, False)) ys)))"
    unfolding fs ys_def using Sample_rate_0[OF d0]
    by (simp add: split_beta Close_unmarked)
  also have "\<dots> = filter error_flag ys" by (rule filter_snd_PenetrateError)
  finally show ?thesis by (simp add: list_all_iff)
qed

lemma the_afterGatherRun:
  "the (afterGatherRun (RegHTTPHandler ext ipt g)) =
     append_filters ipt (new_afterGather ipt (setup_localCache ext ipt (setup_wkpool ext ipt g)))"
  by (simp add: afterGatherRun_RegHTTPHandler)

lemma Run_RegHTTPHandler:
  "Run env (the (afterGatherRun (RegHTTPHandler ext ipt g))) st traces =
     (let (st', out) =
            fold (run_filter env)
              ((if CloseResource ipt \<noteq> [] then [CloseResource_Close (CloseResource ipt)] else [])
               @ [PenetrateErrorTracing]
               @ (if KeepRareResource ipt then [KeepRareResource_Keep True Hour] else [])
               @ (case Sampler ipt of
                    None \<Rightarrow> []
                  | Some smp \<Rightarrow>
                      if float64_le (Finite 0) (SamplingRateGlobal smp) \<and>
                         float64_le (SamplingRateGlobal smp) (Finite 1)
                      then [Sampler_Sample smp] else []))
              (st, map (\<lambda>s. (s, False)) traces)
      in (st', if out = [] then None else Some (map fst out)))"
  unfolding the_afterGatherRun Run_filters ag_filters_append_filters ag_filters_new_afterGather
  by simp

lemma Keep_batch_window:
  assumes "0 < window"
  shows "Keep t window cache spans =
     ((\<lambda>pair. if pair \<in> (\<lambda>x. (service (fst x), resource (fst x))) ` set spans then Some t
               else cache pair),
      [(fst (spans ! j),
        snd (spans ! j) \<or>
        ((service (fst (spans ! j)), resource (fst (spans ! j)))
            \<notin> (\<lambda>x. (service (fst x), resource (fst x))) ` set (take j spans) \<and>
         (case cache (service (fst (spans ! j)), resource (fst (spans ! j))) of
            None \<Rightarrow> True
          | Some seen \<Rightarrow> window \<le> t - seen))).
       j \<leftarrow> [0..<length spans]])"
proof -
  have w: "\<not> window \<le> 0" using assms by simp
  show ?thesis unfolding Keep_batch by (simp add: w cong: if_cong)
qed

lemma Close_not_closed:
  "\<not> closed m rules s \<Longrightarrow> Close m rules [(s, keep)] = [(s, keep)]"
  by (simp add: Close_def)

text \<open>
  C2, as amended. The sampler stage is in the chain of \<open>RegHTTPHandler\<close> exactly when a
  sampler is configured with a rate from 0 to 1. With draws in the unit interval, the
  stage takes one draw for every span of a batch that is not force-kept and keeps that
  span exactly when its draw is below the rate; it keeps every force-kept span whatever
  the draws are. Rate 1 keeps every span, rate 0 keeps the force-kept spans only. With
  rate 0 the error-flagged spans that reach the feed call are the error-flagged spans
  that no close-resource rule drops (all of them when no rule is configured), and every
  span that reaches it is error-flagged when keep-rare-resource is off; with no rule and
  the keeper off, exactly the error-flagged spans are fed.
\<close>

theorem Sampler_contract:
  assumes draws: "\<forall>i. 0 \<le> draw env i \<and> draw env i < 1"
  shows
  "(\<exists>ag. afterGatherRun (RegHTTPHandler ext ipt g) = Some ag \<and>
      ((\<exists>smp. Sampler_Sample smp \<in> set (ag_filters ag)) \<longleftrightarrow>
       (\<exists>smp r. Sampler ipt = Some smp \<and> SamplingRateGlobal smp = Finite r \<and> 0 \<le> r \<and> r \<le> 1))) \<and>
   run_filter env (Sampler_Sample smp) (st, spans) =
     (st\<lparr>draws_used := draws_used st + length (filter (\<lambda>x. \<not> snd x) spans)\<rparr>,
      [spans ! j. j \<leftarrow> [0..<length spans],
         snd (spans ! j) \<or>
         float64_less
           (Finite (draw env (draws_used st + length (filter (\<lambda>x. \<not> snd x) (take j spans)))))
           (SamplingRateGlobal smp)]) \<and>
   filter snd (snd (run_filter env (Sampler_Sample smp) (st, spans))) = filter snd spans \<and>
   snd (run_filter env (Sampler_Sample smp) (st, [(s, False)])) =
     (if float64_less (Finite (draw env (draws_used st))) (SamplingRateGlobal smp)
      then [(s, False)] else []) \<and>
   (SamplingRateGlobal smp = Finite 1 \<longrightarrow>
      snd (run_filter env (Sampler_Sample smp) (st, spans)) = spans) \<and>
   (SamplingRateGlobal smp = Finite 0 \<longrightarrow>
      snd (run_filter env (Sampler_Sample smp) (st, spans)) = filter snd spans) \<and>
   (Sampler ipt = Some \<lparr>SamplingRateGlobal = Finite 0\<rparr> \<longrightarrow>
      (\<exists>ag. afterGatherRun (RegHTTPHandler ext ipt g) = Some ag \<and>
         filter error_flag (fed_spans (snd (Run env ag st traces))) =
           filter (\<lambda>s. error_flag s \<and> \<not> closed (re_match env) (CloseResource ipt) s) traces \<and>
         (CloseResource ipt = [] \<longrightarrow>
            filter error_flag (fed_spans (snd (Run env ag st traces))) = filter error_flag traces) \<and>
         (\<not> KeepRareResource ipt \<longrightarrow>
            list_all error_flag (fed_spans (snd (Run env ag st traces)))) \<and>
         (CloseResource ipt = [] \<and> \<not> KeepRareResource ipt \<longrightarrow>
            snd (Run env ag st traces) =
              (if filter error_flag traces = [] then None else Some (filter error_flag traces)))))"
proof (intro conjI impI)
  obtain ag where ag: "afterGatherRun (RegHTTPHandler ext ipt g) = Some ag"
    and fs: "ag_filters ag =
        (if length (CloseResource ipt) \<noteq> 0 then [CloseResource_Close (CloseResource ipt)] else [])
        @ [PenetrateErrorTracing]
        @ (if KeepRareResource ipt then [KeepRareResource_Keep True Hour] else [])
        @ (case Sampler ipt of
             None \<Rightarrow> []
           | Some smp \<Rightarrow>
               if float64_le (Finite 0) (SamplingRateGlobal smp) \<and>
                  float64_le (SamplingRateGlobal smp) (Finite 1)
               then [Sampler_Sample smp] else [])"
    using ag_filters_RegHTTPHandler by blast
  have "(\<exists>smp. Sampler_Sample smp \<in> set (ag_filters ag)) \<longleftrightarrow>
       (\<exists>smp r. Sampler ipt = Some smp \<and> SamplingRateGlobal smp = Finite r \<and> 0 \<le> r \<and> r \<le> 1)"
    unfolding fs by (cases "Sampler ipt") (auto simp: float64_unit_interval)
  with ag show "\<exists>ag. afterGatherRun (RegHTTPHandler ext ipt g) = Some ag \<and>
      ((\<exists>smp. Sampler_Sample smp \<in> set (ag_filters ag)) \<longleftrightarrow>
       (\<exists>smp r. Sampler ipt = Some smp \<and> SamplingRateGlobal smp = Finite r \<and> 0 \<le> r \<and> r \<le> 1))"
    by blast
next
  show "run_filter env (Sampler_Sample smp) (st, spans) =
     (st\<lparr>draws_used := draws_used st + length (filter (\<lambda>x. \<not> snd x) spans)\<rparr>,
      [spans ! j. j \<leftarrow> [0..<length spans],
         snd (spans ! j) \<or>
         float64_less
           (Finite (draw env (draws_used st + length (filter (\<lambda>x. \<not> snd x) (take j spans)))))
           (SamplingRateGlobal smp)])"
    by (simp add: Sample_batch)
next
  show "filter snd (snd (run_filter env (Sampler_Sample smp) (st, spans))) = filter snd spans"
    by (simp only: snd_run_filter_Sampler Sample_force_kept)
next
  show "snd (run_filter env (Sampler_Sample smp) (st, [(s, False)])) =
     (if float64_less (Finite (draw env (draws_used st))) (SamplingRateGlobal smp)
      then [(s, False)] else [])"
    by simp
next
  assume r1: "SamplingRateGlobal smp = Finite 1"
  have "\<forall>i. draw env i < 1" using draws by simp
  then show "snd (run_filter env (Sampler_Sample smp) (st, spans)) = spans"
    unfolding snd_run_filter_Sampler r1 by (rule Sample_rate_1)
next
  assume r0: "SamplingRateGlobal smp = Finite 0"
  have "\<forall>i. 0 \<le> draw env i" using draws by simp
  then show "snd (run_filter env (Sampler_Sample smp) (st, spans)) = filter snd spans"
    unfolding snd_run_filter_Sampler r0 by (rule Sample_rate_0)
next
  assume smp0: "Sampler ipt = Some \<lparr>SamplingRateGlobal = Finite 0\<rparr>"
  obtain ag where ag: "afterGatherRun (RegHTTPHandler ext ipt g) = Some ag"
    and fs: "ag_filters ag =
        (if length (CloseResource ipt) \<noteq> 0 then [CloseResource_Close (CloseResource ipt)] else [])
        @ [PenetrateErrorTracing]
        @ (if KeepRareResource ipt then [KeepRareResource_Keep True Hour] else [])
        @ (case Sampler ipt of
             None \<Rightarrow> []
           | Some smp \<Rightarrow>
               if float64_le (Finite 0) (SamplingRateGlobal smp) \<and>
                  float64_le (SamplingRateGlobal smp) (Finite 1)
               then [Sampler_Sample smp] else [])"
    using ag_filters_RegHTTPHandler by blast
  have d0: "\<forall>i. 0 \<le> draw env i" using draws by simp
  from smp0 fs have fs0: "ag_filters ag =
        (if CloseResource ipt \<noteq> [] then [CloseResource_Close (CloseResource ipt)] else [])
        @ [PenetrateErrorTracing]
        @ (if KeepRareResource ipt then [KeepRareResource_Keep True Hour] else [])
        @ [Sampler_Sample \<lparr>SamplingRateGlobal = Finite 0\<rparr>]"
    by simp
  have survive: "filter error_flag (fed_spans (snd (Run env ag st traces))) =
           filter (\<lambda>s. error_flag s \<and> \<not> closed (re_match env) (CloseResource ipt) s) traces"
    unfolding fed_spans_Run using d0 fs0 by (rule rate_0_chain_error_survive)
  have survive': "filter error_flag (fed_spans (snd (Run env ag st traces))) = filter error_flag traces"
    if "CloseResource ipt = []"
    unfolding survive that by (simp add: closed_no_rules)
  have dropped: "list_all error_flag (fed_spans (snd (Run env ag st traces)))"
    if "\<not> KeepRareResource ipt"
  proof -
    from that fs0 have "ag_filters ag =
        (if CloseResource ipt \<noteq> [] then [CloseResource_Close (CloseResource ipt)] else [])
        @ [PenetrateErrorTracing] @ [Sampler_Sample \<lparr>SamplingRateGlobal = Finite 0\<rparr>]"
      by simp
    with d0 show ?thesis unfolding fed_spans_Run by (rule rate_0_chain_non_error_dropped)
  qed
  have both: "snd (Run env ag st traces) =
      (if filter error_flag traces = [] then None else Some (filter error_flag traces))"
    if "CloseResource ipt = [] \<and> \<not> KeepRareResource ipt"
  proof -
    from that fs0 have fs': "ag_filters ag =
        [PenetrateErrorTracing, Sampler_Sample \<lparr>SamplingRateGlobal = Finite 0\<rparr>]"
      by simp
    have out: "snd (Sample (Finite 0) (draw env) (draws_used st)
                  (PenetrateError (map (\<lambda>s. (s, False)) traces)))
               = filter snd (PenetrateError (map (\<lambda>s. (s, False)) traces))"
      using d0 by (rule Sample_rate_0)
    show ?thesis
      unfolding Run_filters fs'
      using out filter_snd_PenetrateError[of traces]
      by (auto simp add: split_beta Let_def)
  qed
  from ag survive survive' dropped both
  show "\<exists>ag. afterGatherRun (RegHTTPHandler ext ipt g) = Some ag \<and>
         filter error_flag (fed_spans (snd (Run env ag st traces))) =
           filter (\<lambda>s. error_flag s \<and> \<not> closed (re_match env) (CloseResource ipt) s) traces \<and>
         (CloseResource ipt = [] \<longrightarrow>
            filter error_flag (fed_spans (snd (Run env ag st traces))) = filter error_flag traces) \<and>
         (\<not> KeepRareResource ipt \<longrightarrow>
            list_all error_flag (fed_spans (snd (Run env ag st traces)))) \<and>
         (CloseResource ipt = [] \<and> \<not> KeepRareResource ipt \<longrightarrow>
            snd (Run env ag st traces) =
              (if filter error_flag traces = [] then None else Some (filter error_flag traces)))"
    by blast
qed

theorem Sampler_contract_witness:
  "(\<forall>i. 0 \<le> draw (example_env 0) i \<and> draw (example_env 0) i < 1) \<and>
   (\<exists>ag. afterGatherRun
           (RegHTTPHandler example_ext
              (example_input\<lparr>KeepRareResource := False, CloseResource := []\<rparr>) example_globals)
         = Some ag \<and>
         snd (Run (example_env 0) ag example_filter_state
                [example_span ''r1'' True, example_span ''r2'' False])
         = Some [example_span ''r1'' True])"
proof -
  have h: "\<forall>i. 0 \<le> draw (example_env 0) i \<and> draw (example_env 0) i < 1"
    by (simp add: example_env_def)
  note t = Sampler_contract [where env = "example_env 0" and ext = example_ext
      and ipt = "example_input\<lparr>KeepRareResource := False, CloseResource := []\<rparr>"
      and g = example_globals and st = example_filter_state
      and traces = "[example_span ''r1'' True, example_span ''r2'' False]", OF h]
  note last = t [THEN conjunct2, THEN conjunct2, THEN conjunct2, THEN conjunct2, THEN conjunct2,
      THEN conjunct2]
  have cfg: "Sampler (example_input\<lparr>KeepRareResource := False, CloseResource := []\<rparr>)
             = Some \<lparr>SamplingRateGlobal = Finite 0\<rparr>"
    by (simp add: example_input_def)
  from last [THEN mp, OF cfg]
  have "\<exists>ag. afterGatherRun
           (RegHTTPHandler example_ext
              (example_input\<lparr>KeepRareResource := False, CloseResource := []\<rparr>) example_globals)
         = Some ag \<and>
         snd (Run (example_env 0) ag example_filter_state
                [example_span ''r1'' True, example_span ''r2'' False])
         = Some [example_span ''r1'' True]"
    by (auto simp add: example_input_def example_span_def)
  with h show ?thesis by (rule conjI)
qed

text \<open>
  The claim C2 as stated fails in two configurations with rate 0. With the
  rare-resource keeper on, a span without error flag is fed on its first occurrence;
  with a close-resource rule that matches its resource, an error-flagged span is
  dropped.
\<close>

theorem Sampler_rate_0_counterexample:
  "snd (Run (example_env 0)
          (the (afterGatherRun
                  (RegHTTPHandler example_ext (example_input\<lparr>CloseResource := []\<rparr>) example_globals)))
          example_filter_state [example_span ''r1'' False])
     = Some [example_span ''r1'' False] \<and>
   snd (Run (example_env 0)
          (the (afterGatherRun
                  (RegHTTPHandler example_ext (example_input\<lparr>KeepRareResource := False\<rparr>)
                     example_globals)))
          example_filter_state [example_span ''health'' True])
     = None"
  unfolding Run_RegHTTPHandler
  by (simp add: example_input_def example_env_def example_span_def example_filter_state_def
      PenetrateError_def Close_def closed_def)

text \<open>
  C5, as amended. \<open>RegHTTPHandler\<close> appends the rare-resource keeper exactly when
  keep-rare-resource is on, with a window of one hour (3600 seconds). In every batch
  the keeper force-keeps a span whose (service, resource) pair has not occurred earlier
  in the batch and is not in the cache or was last seen at least a window ago (the first
  occurrence), passes every other span with its annotation unchanged, and records the
  time for every pair of the batch. With sampler rate 0 and a pair not yet in the cache,
  a span that no close-resource rule drops is fed on its first occurrence; when it
  occurs again one second later it is dropped, unless it is error-flagged, in which case
  it is fed.
\<close>

theorem KeepRareResource_contract:
  assumes draws: "\<forall>i. 0 \<le> draw env i"
  shows
  "(\<exists>ag. afterGatherRun (RegHTTPHandler ext ipt g) = Some ag \<and>
      (KeepRareResource ipt \<longrightarrow> KeepRareResource_Keep True Hour \<in> set (ag_filters ag)) \<and>
      (\<forall>opened window. KeepRareResource_Keep opened window \<in> set (ag_filters ag) \<longrightarrow>
         KeepRareResource ipt \<and> opened \<and> window = Hour)) \<and>
   Hour = 3600 * Second \<and> Second = 1000000000 \<and>
   (0 < window \<longrightarrow>
      Keep t window cache spans =
        ((\<lambda>pair. if pair \<in> (\<lambda>x. (service (fst x), resource (fst x))) ` set spans then Some t
                  else cache pair),
         [(fst (spans ! j),
           snd (spans ! j) \<or>
           ((service (fst (spans ! j)), resource (fst (spans ! j)))
               \<notin> (\<lambda>x. (service (fst x), resource (fst x))) ` set (take j spans) \<and>
            (case cache (service (fst (spans ! j)), resource (fst (spans ! j))) of
               None \<Rightarrow> True
             | Some seen \<Rightarrow> window \<le> t - seen))).
          j \<leftarrow> [0..<length spans]])) \<and>
   ((cache (service s, resource s) = None \<or>
     (\<exists>seen. cache (service s, resource s) = Some seen \<and> window \<le> t - seen)) \<longrightarrow>
      Keep t window cache [(s, keep)] = (cache((service s, resource s) \<mapsto> t), [(s, True)])) \<and>
   (\<forall>seen. cache (service s, resource s) = Some seen \<and> t - seen < window \<longrightarrow>
      Keep t window cache [(s, keep)] = (cache((service s, resource s) \<mapsto> t), [(s, keep)])) \<and>
   (KeepRareResource ipt \<and> Sampler ipt = Some \<lparr>SamplingRateGlobal = Finite 0\<rparr> \<and>
    presentMap st (service s, resource s) = None \<and>
    \<not> closed (re_match env) (CloseResource ipt) s \<longrightarrow>
      (\<exists>ag st1 st2. afterGatherRun (RegHTTPHandler ext ipt g) = Some ag \<and>
         Run (env\<lparr>now := t\<rparr>) ag st [s] = (st1, Some [s]) \<and>
         Run (env\<lparr>now := t + Second\<rparr>) ag st1 [s] =
           (st2, if error_flag s then Some [s] else None)))"
proof (intro conjI impI allI)
  obtain ag where ag: "afterGatherRun (RegHTTPHandler ext ipt g) = Some ag"
    and fs: "ag_filters ag =
        (if length (CloseResource ipt) \<noteq> 0 then [CloseResource_Close (CloseResource ipt)] else [])
        @ [PenetrateErrorTracing]
        @ (if KeepRareResource ipt then [KeepRareResource_Keep True Hour] else [])
        @ (case Sampler ipt of
             None \<Rightarrow> []
           | Some smp \<Rightarrow>
               if float64_le (Finite 0) (SamplingRateGlobal smp) \<and>
                  float64_le (SamplingRateGlobal smp) (Finite 1)
               then [Sampler_Sample smp] else [])"
    using ag_filters_RegHTTPHandler by blast
  have a: "KeepRareResource ipt \<longrightarrow> KeepRareResource_Keep True Hour \<in> set (ag_filters ag)"
    unfolding fs by simp
  have b: "\<forall>opened window. KeepRareResource_Keep opened window \<in> set (ag_filters ag) \<longrightarrow>
         KeepRareResource ipt \<and> opened \<and> window = Hour"
    unfolding fs by (cases "Sampler ipt") (auto split: if_splits)
  from ag a b show "\<exists>ag. afterGatherRun (RegHTTPHandler ext ipt g) = Some ag \<and>
      (KeepRareResource ipt \<longrightarrow> KeepRareResource_Keep True Hour \<in> set (ag_filters ag)) \<and>
      (\<forall>opened window. KeepRareResource_Keep opened window \<in> set (ag_filters ag) \<longrightarrow>
         KeepRareResource ipt \<and> opened \<and> window = Hour)"
    by blast
next
  show "Hour = 3600 * Second" by (simp add: Hour_def)
next
  show "Second = 1000000000" by (rule Second_ns)
next
  assume "0 < window"
  then show "Keep t window cache spans =
        ((\<lambda>pair. if pair \<in> (\<lambda>x. (service (fst x), resource (fst x))) ` set spans then Some t
                  else cache pair),
         [(fst (spans ! j),
           snd (spans ! j) \<or>
           ((service (fst (spans ! j)), resource (fst (spans ! j)))
               \<notin> (\<lambda>x. (service (fst x), resource (fst x))) ` set (take j spans) \<and>
            (case cache (service (fst (spans ! j)), resource (fst (spans ! j))) of
               None \<Rightarrow> True
             | Some seen \<Rightarrow> window \<le> t - seen))).
          j \<leftarrow> [0..<length spans]])"
    by (rule Keep_batch_window)
next
  assume "cache (service s, resource s) = None \<or>
     (\<exists>seen. cache (service s, resource s) = Some seen \<and> window \<le> t - seen)"
  then show "Keep t window cache [(s, keep)] = (cache((service s, resource s) \<mapsto> t), [(s, True)])"
    by (rule Keep_first)
next
  fix seen
  assume "cache (service s, resource s) = Some seen \<and> t - seen < window"
  then show "Keep t window cache [(s, keep)] = (cache((service s, resource s) \<mapsto> t), [(s, keep)])"
    using Keep_again by blast
next
  assume cfg: "KeepRareResource ipt \<and> Sampler ipt = Some \<lparr>SamplingRateGlobal = Finite 0\<rparr> \<and>
    presentMap st (service s, resource s) = None \<and>
    \<not> closed (re_match env) (CloseResource ipt) s"
  obtain ag where ag: "afterGatherRun (RegHTTPHandler ext ipt g) = Some ag"
    and fs: "ag_filters ag =
        (if length (CloseResource ipt) \<noteq> 0 then [CloseResource_Close (CloseResource ipt)] else [])
        @ [PenetrateErrorTracing]
        @ (if KeepRareResource ipt then [KeepRareResource_Keep True Hour] else [])
        @ (case Sampler ipt of
             None \<Rightarrow> []
           | Some smp \<Rightarrow>
               if float64_le (Finite 0) (SamplingRateGlobal smp) \<and>
                  float64_le (SamplingRateGlobal smp) (Finite 1)
               then [Sampler_Sample smp] else [])"
    using ag_filters_RegHTTPHandler by blast
  from cfg fs have fs': "ag_filters ag =
      (if CloseResource ipt \<noteq> [] then [CloseResource_Close (CloseResource ipt)] else [])
      @ [PenetrateErrorTracing, KeepRareResource_Keep True Hour,
         Sampler_Sample \<lparr>SamplingRateGlobal = Finite 0\<rparr>]"
    by simp
  from cfg have nc: "Close (re_match env) (CloseResource ipt) [(s, False)] = [(s, False)]"
    by (simp add: Close_not_closed)
  have start: "fold (run_filter (env\<lparr>now := t'\<rparr>))
                 (if CloseResource ipt \<noteq> [] then [CloseResource_Close (CloseResource ipt)] else [])
                 (st', [(s, False)])
               = (st', [(s, False)])" for t' st'
    using nc by simp
  define st1 where "st1 = st\<lparr>presentMap := (presentMap st)((service s, resource s) \<mapsto> t)\<rparr>"
  define st2 where "st2 =
    (if error_flag s
     then st1\<lparr>presentMap := (presentMap st1)((service s, resource s) \<mapsto> t + Second)\<rparr>
     else st1\<lparr>presentMap := (presentMap st1)((service s, resource s) \<mapsto> t + Second),
              draws_used := Suc (draws_used st1)\<rparr>)"
  have nd: "\<not> draw env n < 0" for n using draws by (simp add: not_less)
  have r1: "Run (env\<lparr>now := t\<rparr>) ag st [s] = (st1, Some [s])"
    unfolding Run_filters fs' fold_append comp_def
    by (simp only: list.map start) (use cfg in \<open>simp add: PenetrateError_def Let_def st1_def\<close>)
  have r2: "Run (env\<lparr>now := t + Second\<rparr>) ag st1 [s] =
              (st2, if error_flag s then Some [s] else None)"
    unfolding Run_filters fs' fold_append comp_def
    by (simp only: list.map start)
       (use cfg nd in \<open>simp add: PenetrateError_def Let_def st1_def st2_def Hour_ns Second_ns\<close>)
  from ag r1 r2 show "\<exists>ag st1 st2. afterGatherRun (RegHTTPHandler ext ipt g) = Some ag \<and>
         Run (env\<lparr>now := t\<rparr>) ag st [s] = (st1, Some [s]) \<and>
         Run (env\<lparr>now := t + Second\<rparr>) ag st1 [s] =
           (st2, if error_flag s then Some [s] else None)"
    by blast
qed

theorem KeepRareResource_contract_witness:
  "(\<forall>i. 0 \<le> draw (example_env 0) i) \<and>
   (\<exists>ag st1 st2.
      afterGatherRun (RegHTTPHandler example_ext (example_input\<lparr>CloseResource := []\<rparr>) example_globals)
        = Some ag \<and>
      Run ((example_env 0)\<lparr>now := 0\<rparr>) ag example_filter_state
        [example_span ''r1'' False] = (st1, Some [example_span ''r1'' False]) \<and>
      Run ((example_env 0)\<lparr>now := 0 + Second\<rparr>) ag st1 [example_span ''r1'' False] = (st2, None))"
proof -
  have h: "\<forall>i. 0 \<le> draw (example_env 0) i"
    by (simp add: example_env_def)
  note t = KeepRareResource_contract [where env = "example_env 0" and ext = example_ext
      and ipt = "example_input\<lparr>CloseResource := []\<rparr>"
      and g = example_globals and st = example_filter_state
      and s = "example_span ''r1'' False" and t = 0, OF h]
  note last = t [THEN conjunct2, THEN conjunct2, THEN conjunct2, THEN conjunct2, THEN conjunct2,
      THEN conjunct2]
  have cfg: "KeepRareResource (example_input\<lparr>CloseResource := []\<rparr>) \<and>
      Sampler (example_input\<lparr>CloseResource := []\<rparr>) = Some \<lparr>SamplingRateGlobal = Finite 0\<rparr> \<and>
      presentMap example_filter_state
        (service (example_span ''r1'' False), resource (example_span ''r1'' False)) = None \<and>
      \<not> closed (re_match (example_env 0)) (CloseResource (example_input\<lparr>CloseResource := []\<rparr>))
           (example_span ''r1'' False)"
    by (simp add: example_input_def example_span_def example_filter_state_def closed_def)
  have ne: "\<not> error_flag (example_span ''r1'' False)"
    by (simp add: example_span_def)
  from last [THEN mp, OF cfg] ne
  have "\<exists>ag st1 st2.
      afterGatherRun (RegHTTPHandler example_ext (example_input\<lparr>CloseResource := []\<rparr>) example_globals)
        = Some ag \<and>
      Run ((example_env 0)\<lparr>now := 0\<rparr>) ag example_filter_state
        [example_span ''r1'' False] = (st1, Some [example_span ''r1'' False]) \<and>
      Run ((example_env 0)\<lparr>now := 0 + Second\<rparr>) ag st1 [example_span ''r1'' False] = (st2, None)"
    by (simp only: if_False)
  with h show ?thesis by (rule conjI)
qed

text \<open>
  The claim C5 as stated fails in two cases with rate 0 and the keeper on. The second
  occurrence of an error-flagged span, one second after the first, is fed, not dropped;
  and the first occurrence of a span whose resource a close-resource rule matches is
  dropped, not kept.
\<close>

theorem KeepRareResource_rate_0_counterexample:
  "snd (Run (example_env Second)
          (the (afterGatherRun
                  (RegHTTPHandler example_ext (example_input\<lparr>CloseResource := []\<rparr>) example_globals)))
          (fst (Run (example_env 0)
                  (the (afterGatherRun
                          (RegHTTPHandler example_ext (example_input\<lparr>CloseResource := []\<rparr>)
                             example_globals)))
                  example_filter_state [example_span ''r1'' True]))
          [example_span ''r1'' True])
     = Some [example_span ''r1'' True] \<and>
   snd (Run (example_env 0)
          (the (afterGatherRun (RegHTTPHandler example_ext example_input example_globals)))
          example_filter_state [example_span ''health'' False])
     = None"
  unfolding Run_RegHTTPHandler
  by (simp add: example_input_def example_env_def example_span_def example_filter_state_def
      PenetrateError_def Close_def closed_def Hour_ns Second_ns)

section \<open>Retry and the local cache\<close>

text \<open>
  C6. The chain that \<open>RegHTTPHandler\<close> builds has the retry interval of 100 ms exactly
  when the local cache is non-nil and enabled, and has no retry interval otherwise; in
  that other case a request whose feed fails is logged and dropped, whatever a write to
  the storage would return.
\<close>

theorem retry_iff_localCache_enabled:
  "\<exists>ag. afterGatherRun (RegHTTPHandler ext ipt g) = Some ag \<and>
     (ag_retry ag = Some (100 * Millisecond) \<longleftrightarrow>
        (\<exists>c. localCache (RegHTTPHandler ext ipt g) = Some c \<and> Enabled c)) \<and>
     (ag_retry ag = None \<longleftrightarrow>
        \<not> (\<exists>c. localCache (RegHTTPHandler ext ipt g) = Some c \<and> Enabled c)) \<and>
     (\<not> (\<exists>c. localCache (RegHTTPHandler ext ipt g) = Some c \<and> Enabled c) \<longrightarrow>
        (\<forall>put_result. on_feed_failure (localCache (RegHTTPHandler ext ipt g)) put_result
           = LoggedAndDropped))"
  by (auto simp add: afterGatherRun_RegHTTPHandler localCache_RegHTTPHandler ag_retry_append_filters
      ag_retry_new_afterGather on_feed_failure_def split: option.splits)

theorem retry_iff_localCache_enabled_witness:
  "(\<exists>ag. afterGatherRun (RegHTTPHandler example_ext example_input example_globals) = Some ag \<and>
      ag_retry ag = Some 100000000) \<and>
   (\<exists>ag. afterGatherRun
           (RegHTTPHandler example_ext (example_input\<lparr>LocalCacheConfig := None\<rparr>) example_globals)
         = Some ag \<and>
      ag_retry ag = None \<and>
      on_feed_failure
        (localCache
           (RegHTTPHandler example_ext (example_input\<lparr>LocalCacheConfig := None\<rparr>) example_globals))
        None = LoggedAndDropped)"
proof -
  have on: "\<exists>c. localCache (RegHTTPHandler example_ext example_input example_globals) = Some c \<and>
              Enabled c"
    by (simp add: localCache_RegHTTPHandler setup_localCache_def setup_wkpool_def example_ext_def
        example_input_def example_globals_def RegisterConsumer_def Enabled_def)
  have off: "\<not> (\<exists>c. localCache
             (RegHTTPHandler example_ext (example_input\<lparr>LocalCacheConfig := None\<rparr>) example_globals)
           = Some c \<and> Enabled c)"
    by (simp add: localCache_RegHTTPHandler setup_localCache_def setup_wkpool_def example_ext_def
        example_input_def example_globals_def)
  from retry_iff_localCache_enabled [of example_ext example_input example_globals] on
  have a: "\<exists>ag. afterGatherRun (RegHTTPHandler example_ext example_input example_globals) = Some ag \<and>
      ag_retry ag = Some 100000000"
    by (auto simp add: Millisecond_def)
  from retry_iff_localCache_enabled
         [of example_ext "example_input\<lparr>LocalCacheConfig := None\<rparr>" example_globals] off
  have b: "\<exists>ag. afterGatherRun
           (RegHTTPHandler example_ext (example_input\<lparr>LocalCacheConfig := None\<rparr>) example_globals)
         = Some ag \<and>
      ag_retry ag = None \<and>
      on_feed_failure
        (localCache
           (RegHTTPHandler example_ext (example_input\<lparr>LocalCacheConfig := None\<rparr>) example_globals))
        None = LoggedAndDropped"
    by blast
  from a b show ?thesis by (rule conjI)
qed

section \<open>ApiWrite\<close>

text \<open>
  C9. \<open>ApiWrite\<close> returns \<open>ErrInvalidAPIHandler\<close>, and leaves the world as it is, whenever
  its variadic arguments are not exactly one value that implements \<open>OtelAPIWrite\<close>. With
  such a value and a request that parses, it returns the parsed response body with a
  nil error; \<open>Feed\<close> is called exactly when the parsed point list is not empty, and
  what \<open>Feed\<close> returns does not change the result.
\<close>

theorem ApiWrite_contract:
  "((\<nexists>Feed. x = [OtelAPIWrite Feed]) \<longrightarrow>
      ApiWrite APIV1Write req x w = (Inl ErrInvalidAPIHandler, w)) \<and>
   (\<forall>Feed wr. x = [OtelAPIWrite Feed] \<and> APIV1Write req = Inr wr \<longrightarrow>
      ApiWrite APIV1Write req x w =
        (Inr (RespBody wr),
         if Points wr = [] then w else snd (Feed req (Category wr) (Points wr) w)))"
proof (intro conjI impI allI)
  assume no: "\<nexists>Feed. x = [OtelAPIWrite Feed]"
  show "ApiWrite APIV1Write req x w = (Inl ErrInvalidAPIHandler, w)"
  proof (cases x)
    case Nil
    then show ?thesis by (simp add: ApiWrite_def)
  next
    case (Cons a rest)
    show ?thesis
    proof (cases rest)
      case Nil
      with Cons no show ?thesis by (cases a) (simp_all add: ApiWrite_def)
    next
      case (Cons b rest')
      with \<open>x = a # rest\<close> show ?thesis by (simp add: ApiWrite_def)
    qed
  qed
next
  fix Feed wr
  assume "x = [OtelAPIWrite Feed] \<and> APIV1Write req = Inr wr"
  then show "ApiWrite APIV1Write req x w =
        (Inr (RespBody wr),
         if Points wr = [] then w else snd (Feed req (Category wr) (Points wr) w))"
    by (cases "Feed req (Category wr) (Points wr) w")
       (auto simp add: ApiWrite_def split: option.splits)
qed

theorem ApiWrite_contract_witness:
  "ApiWrite (\<lambda>req. Inr \<lparr>Category = ''metric'', Points = [1 :: nat, 2], RespBody = ''ok''\<rparr>) ()
     [OtelAPIWrite (\<lambda>req cat pts fed. (Some (Error ''feed failed''), fed @ pts))] [] =
     (Inr ''ok'', [1, 2]) \<and>
   ApiWrite (\<lambda>req. Inr \<lparr>Category = ''metric'', Points = [1 :: nat, 2], RespBody = ''ok''\<rparr>) ()
     [OtherValue] ([] :: nat list) = (Inl ErrInvalidAPIHandler, [])"
proof -
  let ?parse = "\<lambda>req :: unit. Inr \<lparr>Category = ''metric'', Points = [1 :: nat, 2], RespBody = ''ok''\<rparr>
                  :: error + (string, nat, string) APIWriteResult"
  let ?feed = "\<lambda>(req :: unit) (cat :: string) (pts :: nat list) (fed :: nat list).
                 (Some (Error ''feed failed''), fed @ pts)"
  from ApiWrite_contract [of "[OtelAPIWrite ?feed]" ?parse "()" "[]", THEN conjunct2]
  have a: "ApiWrite ?parse () [OtelAPIWrite ?feed] [] = (Inr ''ok'', [1, 2])"
    by simp
  from ApiWrite_contract [of "[OtherValue]" ?parse "()" "[] :: nat list", THEN conjunct1]
  have b: "ApiWrite ?parse () [OtherValue] ([] :: nat list) = (Inl ErrInvalidAPIHandler, [])"
    by simp
  from a b show ?thesis by (rule conjI)
qed

section \<open>The disk input's collect\<close>

lemma round_div_error:
  assumes "0 < d"
  shows "\<bar>real (round_div n d) - real n / real d\<bar> \<le> 1 / 2"
proof -
  define q where "q = n div d"
  define r where "r = n mod d"
  have n: "n = q * d + r" unfolding q_def r_def by simp
  have rd: "r < d" unfolding r_def using assms by simp
  have x: "real n / real d = real q + real r / real d"
    using assms by (simp add: n field_simps)
  have up: "d < 2 * r \<Longrightarrow> \<bar>real q + 1 - (real q + real r / real d)\<bar> \<le> 1 / 2"
    using assms rd by (simp add: field_simps abs_if)
  have tie: "2 * r = d \<Longrightarrow> \<bar>real q + 1 - (real q + real r / real d)\<bar> \<le> 1 / 2"
    using assms rd by (simp add: field_simps abs_if)
  have down: "\<not> d < 2 * r \<Longrightarrow> \<bar>real q - (real q + real r / real d)\<bar> \<le> 1 / 2"
    using assms rd by (simp add: field_simps abs_if)
  show ?thesis
    unfolding round_div_def Let_def q_def[symmetric] r_def[symmetric] x
    using up tie down by auto
qed

lemma bit_length_le: "0 < n \<Longrightarrow> 2 ^ bit_length n \<le> 2 * n"
proof (induction n rule: bit_length.induct)
  case (1 n)
  show ?case
  proof (cases "n div 2 = 0")
    case True
    with 1(2) have "n = Suc 0" by (simp add: div_eq_0_iff)
    then show ?thesis by (simp add: bit_length.simps[of "Suc 0"] bit_length.simps[of 0])
  next
    case False
    then have "2 ^ bit_length (n div 2) \<le> 2 * (n div 2)" using 1 by simp
    also have "\<dots> \<le> n" by simp
    finally show ?thesis using 1(2) by (simp add: bit_length.simps[of n])
  qed
qed

lemma bit_length_gt: "n < 2 ^ bit_length n"
proof (induction n rule: bit_length.induct)
  case (1 n)
  show ?case
  proof (cases "n = 0")
    case True
    then show ?thesis by simp
  next
    case False
    then have "n div 2 < 2 ^ bit_length (n div 2)" using 1 by simp
    then have "n < 2 * 2 ^ bit_length (n div 2)" by linarith
    then show ?thesis using False by (simp add: bit_length.simps[of n])
  qed
qed

lemma bit_length_pos: "0 < n \<Longrightarrow> 0 < bit_length n"
  by (simp add: bit_length.simps[of n])

lemma bit_length_lower: "0 < n \<Longrightarrow> 2 ^ (bit_length n - 1) \<le> n"
proof -
  assume n: "0 < n"
  then have "2 * 2 ^ (bit_length n - 1) = (2::nat) ^ bit_length n"
    using bit_length_pos[OF n] by (cases "bit_length n") simp_all
  with bit_length_le[OF n] show ?thesis by simp
qed


lemma float64_of_nat_error: "\<bar>real (float64_of_nat n) - real n\<bar> \<le> real n / 2 ^ 53"
proof (cases "n < 2 ^ 53")
  case True
  then show ?thesis by (simp add: float64_of_nat_def)
next
  case False
  define e where "e = bit_length n - 53"
  have n0: "0 < n" using False by (cases "n = 0") simp_all
  have bl: "53 < bit_length n"
  proof (rule ccontr)
    assume "\<not> 53 < bit_length n"
    then have "bit_length n \<le> 53" by simp
    then have "(2::nat) ^ bit_length n \<le> 2 ^ 53" by (rule power_increasing) simp
    with bit_length_gt[of n] False show False by simp
  qed
  have "bit_length n - 1 = e + 52" unfolding e_def using bl by simp
  then have "(2::nat) ^ (bit_length n - 1) = 2 ^ e * 2 ^ 52"
    by (simp only: power_add)
  with bit_length_lower[OF n0] have low: "2 ^ e * 2 ^ 52 \<le> n" by simp
  then have "real (2 ^ e * 2 ^ 52) \<le> real n" by (simp only: of_nat_le_iff)
  then have low': "(2::real) ^ e * 2 ^ 52 \<le> real n" by simp
  have f: "float64_of_nat n = round_div n (2 ^ e) * 2 ^ e"
    using False by (simp add: float64_of_nat_def Let_def e_def)
  have "\<bar>real (round_div n (2 ^ e)) - real n / real (2 ^ e)\<bar> \<le> 1 / 2"
    by (rule round_div_error) simp
  then have "\<bar>real (round_div n (2 ^ e)) - real n / 2 ^ e\<bar> * 2 ^ e \<le> 1 / 2 * 2 ^ e"
    by (intro mult_right_mono) simp_all
  moreover have "\<bar>real (round_div n (2 ^ e)) - real n / 2 ^ e\<bar> * 2 ^ e
      = \<bar>real (round_div n (2 ^ e)) * 2 ^ e - real n\<bar>"
  proof -
    have "\<bar>real (round_div n (2 ^ e)) - real n / 2 ^ e\<bar> * 2 ^ e
          = \<bar>(real (round_div n (2 ^ e)) - real n / 2 ^ e) * 2 ^ e\<bar>"
      by (simp add: abs_mult)
    also have "(real (round_div n (2 ^ e)) - real n / 2 ^ e) * 2 ^ e
          = real (round_div n (2 ^ e)) * 2 ^ e - real n"
      by (simp add: left_diff_distrib)
    finally show ?thesis .
  qed
  ultimately have "\<bar>real (float64_of_nat n) - real n\<bar> \<le> 2 ^ e / 2"
    by (simp add: f)
  also have "(2::real) ^ e / 2 \<le> real n / 2 ^ 53"
  proof -
    have "(2::real) ^ e / 2 = (2 ^ e * 2 ^ 52) / 2 ^ 53" by simp
    also have "\<dots> \<le> real n / 2 ^ 53" using low' by (rule divide_right_mono) simp
    finally show ?thesis .
  qed
  finally show ?thesis .
qed

lemma scale_quot:
  assumes "0 < d"
  shows "real (a * 2 ^ nat k) / real (d * 2 ^ nat (- k)) = real a / real d * 2 powi k"
proof (cases "0 \<le> k")
  case True
  then have "nat (- k) = 0" by simp
  moreover from True have "(2::real) powi k = 2 ^ nat k" by (simp add: power_int_def)
  ultimately show ?thesis by simp
next
  case False
  then have "nat k = 0" by simp
  moreover from False have "(2::real) powi k = inverse (2 ^ nat (- k))"
    by (simp add: power_int_def power_one_over inverse_eq_divide)
  ultimately show ?thesis by (simp add: divide_inverse)
qed

lemma quot_lower:
  assumes a: "0 < a" and d: "0 < d"
  shows "2 ^ 52 \<le> real a / real d * 2 powi (53 + int (bit_length d) - int (bit_length a))"
proof -
  let ?la = "bit_length a" and ?ld = "bit_length d"
  have la: "0 < ?la" using a by (rule bit_length_pos)
  have "(2::nat) ^ (?la - 1) \<le> a" using a by (rule bit_length_lower)
  then have "real ((2::nat) ^ (?la - 1)) \<le> real a" by (simp only: of_nat_le_iff)
  then have al: "(2::real) ^ (?la - 1) \<le> real a" by simp
  have "d \<le> 2 ^ ?ld" using bit_length_gt[of d] by simp
  then have "real d \<le> real ((2::nat) ^ ?ld)" by (simp only: of_nat_le_iff)
  then have du: "real d \<le> 2 ^ ?ld" by simp
  have dpos: "0 < real d" using d by simp
  have "(2::real) ^ (?la - 1) / 2 ^ ?ld \<le> real a / 2 ^ ?ld"
    using al by (rule divide_right_mono) simp
  also have "\<dots> \<le> real a / real d"
    using du dpos by (intro divide_left_mono) simp_all
  finally have q: "(2::real) ^ (?la - 1) / 2 ^ ?ld \<le> real a / real d" .
  have e: "53 + int ?ld - int ?la = 52 + int ?ld - int (?la - 1)" using la by simp
  have "(2::real) powi (53 + int ?ld - int ?la) = 2 ^ 52 * 2 ^ ?ld / 2 ^ (?la - 1)"
    unfolding e by (simp add: power_int_diff power_int_add)
  then have p: "(2::real) ^ (?la - 1) / 2 ^ ?ld * 2 powi (53 + int ?ld - int ?la) = 2 ^ 52"
    by simp
  have "(2::real) ^ (?la - 1) / 2 ^ ?ld * 2 powi (53 + int ?ld - int ?la)
        \<le> real a / real d * 2 powi (53 + int ?ld - int ?la)"
    using q by (rule mult_right_mono) simp
  then show ?thesis unfolding p .
qed


lemma float64_div_error:
  assumes a: "0 < a" and d: "0 < d"
  shows "\<bar>float64_value (float64_div a d) - real a / real d\<bar> \<le> real a / real d / 2 ^ 53"
proof -
  define y where "y = real a / real d"
  define k0 where "k0 = 53 + int (bit_length d) - int (bit_length a)"
  define k where "k = (if 2 ^ 53 \<le> (a * 2 ^ nat k0) div (d * 2 ^ nat (- k0)) then k0 - 1 else k0)"
  define m where "m = round_div (a * 2 ^ nat k) (d * 2 ^ nat (- k))"
  have fd: "float64_div a d = (m, k)"
    by (simp add: float64_div_def Let_def m_def k_def k0_def)
  have ypos: "0 < y" unfolding y_def using a d by simp
  have x0: "2 ^ 52 \<le> y * 2 powi k0"
    unfolding y_def k0_def using a d by (rule quot_lower)
  have xlow: "2 ^ 52 \<le> y * 2 powi k"
  proof (cases "2 ^ 53 \<le> (a * 2 ^ nat k0) div (d * 2 ^ nat (- k0))")
    case True
    then have "real ((2::nat) ^ 53) \<le> real ((a * 2 ^ nat k0) div (d * 2 ^ nat (- k0)))"
      by (simp only: of_nat_le_iff)
    also have "\<dots> \<le> real (a * 2 ^ nat k0) / real (d * 2 ^ nat (- k0))"
      by (rule of_nat_div_le_of_nat)
    also have "\<dots> = y * 2 powi k0" unfolding y_def using d by (rule scale_quot)
    finally have big: "2 ^ 53 \<le> y * 2 powi k0" by simp
    have half: "(2::real) powi (k0 - 1) = 2 powi k0 / 2"
      by (simp add: power_int_diff)
    have "(2::real) ^ 52 = 2 ^ 53 / 2" by simp
    also have "\<dots> \<le> y * 2 powi k0 / 2" using big by (rule divide_right_mono) simp
    also have "\<dots> = y * 2 powi (k0 - 1)" unfolding half by simp
    finally have "2 ^ 52 \<le> y * 2 powi (k0 - 1)" .
    moreover have "k = k0 - 1" using True by (simp only: k_def if_True)
    ultimately show ?thesis by simp
  next
    case False
    then have "k = k0" by (simp only: k_def if_False)
    with x0 show ?thesis by simp
  qed
  have dpos: "0 < d * 2 ^ nat (- k)" using d by simp
  have "\<bar>real m - real (a * 2 ^ nat k) / real (d * 2 ^ nat (- k))\<bar> \<le> 1 / 2"
    unfolding m_def using dpos by (rule round_div_error)
  moreover have "real (a * 2 ^ nat k) / real (d * 2 ^ nat (- k)) = y * 2 powi k"
    unfolding y_def using d by (rule scale_quot)
  ultimately have err: "\<bar>real m - y * 2 powi k\<bar> \<le> 1 / 2" by simp
  have inv: "(2::real) powi k * 2 powi (- k) = 1"
    by (simp add: power_int_minus)
  have ppos: "0 < (2::real) powi (- k)" by simp
  have "float64_value (m, k) - y = (real m - y * 2 powi k) * 2 powi (- k)"
  proof -
    have "(real m - y * 2 powi k) * 2 powi (- k)
          = real m * 2 powi (- k) - y * (2 powi k * 2 powi (- k))"
      by (simp add: left_diff_distrib mult.assoc)
    then show ?thesis unfolding inv by (simp add: float64_value_def)
  qed
  then have "\<bar>float64_value (m, k) - y\<bar> = \<bar>real m - y * 2 powi k\<bar> * 2 powi (- k)"
    using ppos by (simp add: abs_mult)
  also have "\<dots> \<le> 1 / 2 * 2 powi (- k)"
    using err ppos by (intro mult_right_mono) simp_all
  also have "\<dots> \<le> y / 2 ^ 53"
  proof -
    have "2 ^ 52 * 2 powi (- k) \<le> y * 2 powi k * 2 powi (- k)"
      using xlow ppos by (intro mult_right_mono) simp_all
    also have "\<dots> = y" using inv by (simp add: mult.assoc)
    finally have "2 ^ 52 * 2 powi (- k) \<le> y" .
    then have "2 ^ 52 * 2 powi (- k) / 2 ^ 53 \<le> y / 2 ^ 53"
      by (rule divide_right_mono) simp
    moreover have "2 ^ 52 * (2::real) powi (- k) / 2 ^ 53 = 1 / 2 * 2 powi (- k)" by simp
    ultimately show ?thesis by simp
  qed
  finally show ?thesis unfolding fd y_def .
qed

lemma float64_of_nat_pos:
  assumes "0 < n"
  shows "0 < float64_of_nat n"
proof -
  have "real n / 2 ^ 53 < real n" using assms by simp
  with float64_of_nat_error[of n] have "0 < real (float64_of_nat n)" by linarith
  then show ?thesis by simp
qed

lemma float64_add_pos:
  assumes "0 < Used du + Free du"
  shows "0 < float64_add (float64_of_nat (unat (Used du))) (float64_of_nat (unat (Free du)))"
proof -
  have "0 < float64_of_nat (unat (Used du)) + float64_of_nat (unat (Free du))"
  proof (cases "Used du = 0")
    case True
    with assms have "Free du \<noteq> 0" by auto
    then have "0 < unat (Free du)" by (simp add: unat_gt_0)
    then have "0 < float64_of_nat (unat (Free du))" by (rule float64_of_nat_pos)
    then show ?thesis by (rule trans_less_add2)
  next
    case False
    then have "0 < unat (Used du)" by (simp add: unat_gt_0)
    then have "0 < float64_of_nat (unat (Used du))" by (rule float64_of_nat_pos)
    then show ?thesis by (rule trans_less_add1)
  qed
  then show ?thesis unfolding float64_add_def by (rule float64_of_nat_pos)
qed

lemma round_div_0: "0 < d \<Longrightarrow> round_div 0 d = 0"
  by (simp add: round_div_def)

lemma float64_percent_error:
  assumes d: "0 < d"
  shows "\<bar>float64_value (float64_mul_nat (float64_div a d) 100) - real a / real d * 100\<bar>
         \<le> real a / real d * 100 / 2 ^ 51"
proof (cases "a = 0")
  case True
  have "fst (float64_div 0 d) = 0"
    using d by (simp add: float64_div_def Let_def round_div_0)
  then have "float64_value (float64_mul_nat (float64_div 0 d) 100) = 0"
    by (simp add: float64_mul_nat_def float64_value_def float64_of_nat_def)
  with True show ?thesis by simp
next
  case False
  then have a: "0 < a" by simp
  define y where "y = real a / real d"
  obtain m k where mk: "float64_div a d = (m, k)" by (cases "float64_div a d")
  define v where "v = real m * 2 powi (- k)"
  define p where "p = real (float64_of_nat (m * 100)) * 2 powi (- k)"
  have ypos: "0 < y" unfolding y_def using a d by simp
  have ppos: "0 < (2::real) powi (- k)" by simp
  define c where "c = y / 2 ^ 53"
  define w where "w = v / 2 ^ 53"
  have cpos: "0 \<le> c" unfolding c_def using ypos by simp
  have cy: "c \<le> y" unfolding c_def using ypos by simp
  have vy: "\<bar>v - y\<bar> \<le> c"
    using float64_div_error[OF a d] unfolding mk v_def y_def c_def by (simp add: float64_value_def)
  have vle: "v \<le> 2 * y" using vy cy by linarith
  have wc: "w \<le> 2 * c"
  proof -
    have "v / 2 ^ 53 \<le> 2 * y / 2 ^ 53" using vle by (rule divide_right_mono) simp
    then show ?thesis unfolding w_def c_def by simp
  qed
  have "\<bar>real (float64_of_nat (m * 100)) - real (m * 100)\<bar> \<le> real (m * 100) / 2 ^ 53"
    by (rule float64_of_nat_error)
  then have A: "\<bar>real (float64_of_nat (m * 100)) - real (m * 100)\<bar> * 2 powi (- k)
             \<le> real (m * 100) / 2 ^ 53 * 2 powi (- k)"
    using ppos by (intro mult_right_mono) simp_all
  have B: "\<bar>real (float64_of_nat (m * 100)) - real (m * 100)\<bar> * 2 powi (- k) = \<bar>p - v * 100\<bar>"
  proof -
    have "\<bar>real (float64_of_nat (m * 100)) - real (m * 100)\<bar> * 2 powi (- k)
          = \<bar>(real (float64_of_nat (m * 100)) - real (m * 100)) * 2 powi (- k)\<bar>"
      using ppos by (simp add: abs_mult)
    also have "(real (float64_of_nat (m * 100)) - real (m * 100)) * 2 powi (- k) = p - v * 100"
      unfolding p_def v_def by (simp add: left_diff_distrib)
    finally show ?thesis .
  qed
  have C: "real (m * 100) / 2 ^ 53 * 2 powi (- k) = 100 * w"
    unfolding w_def v_def by simp
  have pv: "\<bar>p - v * 100\<bar> \<le> 100 * w" using A unfolding B C .
  have "\<bar>p - y * 100\<bar> \<le> 300 * c" using pv vy wc by linarith
  moreover have "y * 100 / 2 ^ 51 = 400 * c" unfolding c_def by simp
  ultimately have "\<bar>p - y * 100\<bar> \<le> y * 100 / 2 ^ 51" using cpos by linarith
  moreover have "float64_value (float64_mul_nat (float64_div a d) 100) = p"
    unfolding mk p_def by (simp add: float64_mul_nat_def float64_value_def)
  ultimately show ?thesis unfolding y_def by simp
qed

lemma map_of_KVs_Add_force:
  "map_of (KVs_Add x k v isTag True) = (map_of x)(k \<mapsto> (v, isTag \<and> is_VString v))"
  by (induction x) (auto simp: fun_eq_iff)

lemma map_of_KVs_Add_present:
  "map_of x k' = Some e \<Longrightarrow> map_of (KVs_Add x k v isTag False) k' = Some e"
  by (induction x) auto

lemma map_of_KVs_AddTag_present:
  "map_of x k' = Some e \<Longrightarrow>
   map_of (foldl (\<lambda>kvs (k, v). KVs_AddTag kvs k v) x tags) k' = Some e"
  by (induction tags arbitrary: x) (auto simp: KVs_AddTag_def map_of_KVs_Add_present)

lemma collect_kvs_used_percent:
  "map_of (collect_kvs env du part) ''used_percent'' = Some (VFloat (Finite (usedPercent du)), False)"
  unfolding collect_kvs_def Let_def
  by (rule map_of_KVs_AddTag_present) (simp add: map_of_KVs_Add_force split: sum.split)

lemma collect_loop_eq:
  "collect_loop env ptTS partitions index disks acc = Some r \<Longrightarrow>
   r = acc @ [NewPointV2 env inputName (collect_kvs env u part) ptTS.
               (Some u, part) \<leftarrow> zip disks (drop index partitions), Total u \<noteq> 0]"
proof (induction disks arbitrary: index acc)
  case Nil
  then show ?case by simp
next
  case (Cons d disks)
  show ?case
  proof (cases d)
    case None
    with Cons.prems have lt: "index < length partitions"
      and r: "collect_loop env ptTS partitions (Suc index) disks acc = Some r"
      by (auto split: if_splits)
    from Cons.IH[OF r] show ?thesis using None lt
      by (simp add: Cons_nth_drop_Suc[symmetric])
  next
    case (Some du)
    show ?thesis
    proof (cases "Total du = 0")
      case True
      with Cons.prems Some have r: "collect_loop env ptTS partitions (Suc index) disks acc = Some r"
        by simp
      show ?thesis
      proof (cases "index < length partitions")
        case True
        from Cons.IH[OF r] show ?thesis using Some \<open>Total du = 0\<close> True
          by (simp add: Cons_nth_drop_Suc[symmetric])
      next
        case False
        from Cons.IH[OF r] show ?thesis using Some False by simp
      qed
    next
      case False
      with Cons.prems Some have lt: "index < length partitions"
        and r: "collect_loop env ptTS partitions (Suc index) disks
             (acc @ [NewPointV2 env inputName (collect_kvs env du (partitions ! index)) ptTS]) = Some r"
        by (auto split: if_splits)
      from Cons.IH[OF r] show ?thesis using Some False lt
        by (simp add: Cons_nth_drop_Suc[symmetric])
    qed
  qed
qed

lemma float64_of_nat_exact: "n < 2 ^ 53 \<Longrightarrow> float64_of_nat n = n"
  by (simp add: float64_of_nat_def)

text \<open>
  C10. When \<open>diskStats.FilterUsage\<close> succeeds and \<open>collect\<close> returns, it returns no error
  and its cache holds one point for each partition whose usage entry is non-nil with a
  non-zero \<open>Total\<close>, in order, and for no other. The field \<open>used_percent\<close> of the fields handed to \<open>NewPointV2\<close> is
  \<open>usedPercent\<close>. Under the guard \<open>Used + Free > 0\<close> the denominator
  \<open>float64(Used) + float64(Free)\<close> is not zero and \<open>usedPercent\<close> is the \<open>float64\<close>
  quotient of \<open>float64(Used)\<close> by that denominator, times 100; it differs from the exact
  value of that expression by at most a fraction \<open>1 / 2 ^ 51\<close> of it, and from
  \<open>Used / (Used + Free) * 100\<close> itself by as little when \<open>Used + Free\<close> is below
  \<open>2 ^ 53\<close>. When the guard fails, \<open>usedPercent\<close> is 0.
\<close>

theorem collect_guards:
  "(collect env (Inr (disks, partitions)) ptTS = Some (err, collectCache) \<longrightarrow>
      err = None \<and>
      collectCache = [NewPointV2 env inputName (collect_kvs env u part) ptTS.
                       (Some u, part) \<leftarrow> zip disks partitions, Total u \<noteq> 0]) \<and>
   map_of (collect_kvs env du part) ''used_percent'' = Some (VFloat (Finite (usedPercent du)), False) \<and>
   (0 < Used du + Free du \<longrightarrow>
      float64_add (float64_of_nat (unat (Used du))) (float64_of_nat (unat (Free du))) \<noteq> 0 \<and>
      usedPercent du =
        float64_value
          (float64_mul_nat
             (float64_div (float64_of_nat (unat (Used du)))
                (float64_add (float64_of_nat (unat (Used du))) (float64_of_nat (unat (Free du)))))
             100) \<and>
      \<bar>usedPercent du -
         real (float64_of_nat (unat (Used du))) /
           real (float64_add (float64_of_nat (unat (Used du))) (float64_of_nat (unat (Free du)))) * 100\<bar>
        \<le> real (float64_of_nat (unat (Used du))) /
             real (float64_add (float64_of_nat (unat (Used du))) (float64_of_nat (unat (Free du)))) * 100
             / 2 ^ 51 \<and>
      (unat (Used du) + unat (Free du) < 2 ^ 53 \<longrightarrow>
         \<bar>usedPercent du - real (unat (Used du)) / real (unat (Used du) + unat (Free du)) * 100\<bar>
           \<le> real (unat (Used du)) / real (unat (Used du) + unat (Free du)) * 100 / 2 ^ 51)) \<and>
   (\<not> 0 < Used du + Free du \<longrightarrow> usedPercent du = 0)"
proof (intro conjI impI)
  assume c: "collect env (Inr (disks, partitions)) ptTS = Some (err, collectCache)"
  then show "err = None" by (auto simp: collect_def split: option.splits)
  from c have "collect_loop env ptTS partitions 0 disks [] = Some collectCache"
    by (auto simp: collect_def split: option.splits)
  from collect_loop_eq[OF this]
  show "collectCache = [NewPointV2 env inputName (collect_kvs env u part) ptTS.
                       (Some u, part) \<leftarrow> zip disks partitions, Total u \<noteq> 0]" by simp
next
  show "map_of (collect_kvs env du part) ''used_percent'' = Some (VFloat (Finite (usedPercent du)), False)"
    by (rule collect_kvs_used_percent)
next
  assume g: "0 < Used du + Free du"
  let ?a = "float64_of_nat (unat (Used du))"
  let ?d = "float64_add (float64_of_nat (unat (Used du))) (float64_of_nat (unat (Free du)))"
  have dpos: "0 < ?d" using g by (rule float64_add_pos)
  then show "?d \<noteq> 0" by simp
  from g show up: "usedPercent du = float64_value (float64_mul_nat (float64_div ?a ?d) 100)"
    by (simp add: usedPercent_def)
  show b: "\<bar>usedPercent du - real ?a / real ?d * 100\<bar> \<le> real ?a / real ?d * 100 / 2 ^ 51"
    unfolding up using dpos by (rule float64_percent_error)
  show "\<bar>usedPercent du - real (unat (Used du)) / real (unat (Used du) + unat (Free du)) * 100\<bar>
           \<le> real (unat (Used du)) / real (unat (Used du) + unat (Free du)) * 100 / 2 ^ 51"
    if small: "unat (Used du) + unat (Free du) < 2 ^ 53"
  proof -
    from small have u: "unat (Used du) < 2 ^ 53" and f: "unat (Free du) < 2 ^ 53" by simp_all
    have a: "?a = unat (Used du)" using u by (rule float64_of_nat_exact)
    have "?d = float64_of_nat (unat (Used du) + unat (Free du))"
      unfolding float64_add_def a float64_of_nat_exact[OF f] ..
    also have "\<dots> = unat (Used du) + unat (Free du)" using small by (rule float64_of_nat_exact)
    finally have d: "?d = unat (Used du) + unat (Free du)" .
    from b have "\<bar>usedPercent du - real (unat (Used du)) / real ?d * 100\<bar>
        \<le> real (unat (Used du)) / real ?d * 100 / 2 ^ 51"
      by (simp only: a)
    then show ?thesis by (simp only: d)
  qed
next
  assume "\<not> 0 < Used du + Free du"
  then show "usedPercent du = 0" by (simp add: usedPercent_def)
qed

theorem collect_guards_witness:
  "collect example_disk_env (Inr (example_disks, example_partitions)) 7 =
     Some (None,
       [(''disk'',
         collect_kvs example_disk_env (example_usage 100 7 93)
           \<lparr>Device = ''/dev/sda2'', Mountpoint = ''/''\<rparr>,
         7)]) \<and>
   map_of (collect_kvs example_disk_env (example_usage 100 7 93)
             \<lparr>Device = ''/dev/sda2'', Mountpoint = ''/''\<rparr>) ''used_percent'' =
     Some (VFloat (Finite (7881299347898369 / 2 ^ 50)), False) \<and>
   usedPercent (example_usage 100 1 3) = 25 \<and>
   usedPercent (example_usage 100 0 0) = 0 \<and>
   usedPercent (example_usage 100 (2 ^ 63) (2 ^ 63)) = 0"
proof -
  let ?du = "example_usage 100 7 93"
  let ?part = "\<lparr>Device = ''/dev/sda2'', Mountpoint = ''/''\<rparr>"
  have "collect_loop example_disk_env 7 example_partitions 0 example_disks [] \<noteq> None"
    by (simp add: example_disks_def example_partitions_def example_usage_def)
  then obtain err collectCache where
    c: "collect example_disk_env (Inr (example_disks, example_partitions)) 7 = Some (err, collectCache)"
    by (auto simp add: collect_def)
  note t = collect_guards [where env = example_disk_env and disks = example_disks
      and partitions = example_partitions and ptTS = 7 and err = err
      and collectCache = collectCache and du = ?du and part = ?part]
  from t [THEN conjunct1, THEN mp, OF c]
  have err: "err = None"
    and cache: "collectCache = [NewPointV2 example_disk_env inputName
                                  (collect_kvs example_disk_env ?du ?part) 7]"
    by (simp_all add: example_disks_def example_partitions_def example_usage_def)
  have new: "NewPointV2 example_disk_env inputName (collect_kvs example_disk_env ?du ?part) 7
             = (''disk'', collect_kvs example_disk_env ?du ?part, 7)"
    by (simp add: example_disk_env_def inputName_def)
  have guard: "0 < Used ?du + Free ?du"
    by (simp add: example_usage_def)
  have val: "float64_value
          (float64_mul_nat
             (float64_div (float64_of_nat (unat (Used ?du)))
                (float64_add (float64_of_nat (unat (Used ?du))) (float64_of_nat (unat (Free ?du)))))
             100) = 7881299347898369 / 2 ^ 50"
    by (simp add: example_usage_def float64_div_def round_div_def bit_length.simps Let_def
        float64_of_nat_def float64_add_def float64_mul_nat_def float64_value_def power_int_minus)
  from t [THEN conjunct2, THEN conjunct2, THEN conjunct1, THEN mp, OF guard, THEN conjunct2,
          THEN conjunct1] val
  have "usedPercent ?du = 7881299347898369 / 2 ^ 50" by (simp only:)
  with t [THEN conjunct2, THEN conjunct1]
  have up: "map_of (collect_kvs example_disk_env ?du ?part) ''used_percent''
            = Some (VFloat (Finite (7881299347898369 / 2 ^ 50)), False)"
    by (simp only:)
  have g2: "0 < Used (example_usage 100 1 3) + Free (example_usage 100 1 3)"
    by (simp add: example_usage_def)
  from collect_guards [where du = "example_usage 100 1 3", THEN conjunct2, THEN conjunct2,
      THEN conjunct1, THEN mp, OF g2, THEN conjunct2, THEN conjunct1]
  have q: "usedPercent (example_usage 100 1 3) = 25"
    by (simp add: example_usage_def float64_div_def round_div_def bit_length.simps Let_def
        float64_of_nat_def float64_add_def float64_mul_nat_def float64_value_def power_int_minus)
  have z1: "usedPercent (example_usage 100 0 0) = 0"
    using collect_guards [where du = "example_usage 100 0 0", THEN conjunct2, THEN conjunct2, THEN conjunct2]
    by (simp add: example_usage_def)
  have z2: "usedPercent (example_usage 100 (2 ^ 63) (2 ^ 63)) = 0"
    using collect_guards [where du = "example_usage 100 (2 ^ 63) (2 ^ 63)",
        THEN conjunct2, THEN conjunct2, THEN conjunct2]
    by (simp add: example_usage_def)
  from c err cache new have "collect example_disk_env (Inr (example_disks, example_partitions)) 7 =
     Some (None, [(''disk'', collect_kvs example_disk_env ?du ?part, 7)])"
    by (simp only:)
  with up q z1 z2 show ?thesis by (simp only: simp_thms)
qed

section \<open>The replay consumer\<close>

lemma wkpool_RegHTTPHandler:
  "wkpool (RegHTTPHandler ext ipt g) = wkpool (setup_localCache ext ipt (setup_wkpool ext ipt g))"
  by (simp add: RegHTTPHandler_def Let_def httpapi_RegHTTPHandler_def)

lemma http_routes_setup:
  "http_routes (setup_localCache ext ipt (setup_wkpool ext ipt g)) = http_routes g"
  by (simp add: setup_localCache_def setup_wkpool_def Let_def split: option.split sum.split)

lemma http_routes_RegHTTPHandler:
  "Endpoint ipt \<noteq> [] \<Longrightarrow>
   http_routes (RegHTTPHandler ext ipt g) =
     http_routes g @
     [(''POST'', Endpoint ipt,
       HTTPWrapper ext (httpStatusRespFunc ext) (wkpool (RegHTTPHandler ext ipt g))
         (HTTPStorageWrapper ext HTTP_KEY (httpStatusRespFunc ext)
            (localCache (RegHTTPHandler ext ipt g)) (handleJaegerTrace ext)))]"
  by (simp add: localCache_RegHTTPHandler wkpool_RegHTTPHandler)
     (simp add: RegHTTPHandler_def Let_def httpapi_RegHTTPHandler_def http_routes_setup)

lemma registered_consumer:
  assumes "LocalCacheConfig ipt = Some cfg" "NewStorage ext cfg = Inr cache"
    "map_of (st_consumers cache) HTTP_KEY = None"
  shows "\<exists>lc. localCache (RegHTTPHandler ext ipt g) = Some lc \<and>
           map_of (st_consumers lc) HTTP_KEY = Some (replay_consumer ext)"
  using assms
  by (auto simp add: localCache_RegHTTPHandler setup_localCache_def RegisterConsumer_def Let_def
      map_add_def split: option.split)

text \<open>
  C3. When the input has a storage configuration, the storage is created and has no
  consumer for \<open>HTTP_KEY\<close> yet, and the endpoint is not empty, \<open>RegHTTPHandler\<close> binds to
  \<open>HTTP_KEY\<close> a consumer that, for every buffer that decodes, calls \<open>handleJaegerTrace\<close>
  once, with the no-op response writer and the request rebuilt from the payload; and the
  route it registers for live POST requests wraps that same \<open>handleJaegerTrace\<close>. Replayed
  and live requests go through one handler, with no case for replayed data.
\<close>

theorem replay_invokes_live_handler:
  assumes "LocalCacheConfig ipt = Some cfg" and "NewStorage ext cfg = Inr cache"
    and "map_of (st_consumers cache) HTTP_KEY = None" and "Endpoint ipt \<noteq> []"
  shows "\<exists>lc fn. localCache (RegHTTPHandler ext ipt g) = Some lc \<and>
      map_of (st_consumers lc) HTTP_KEY = Some fn \<and>
      (\<forall>buf reqpb w. Unmarshal ext buf = Inr reqpb \<longrightarrow>
         fn buf w = (None, handleJaegerTrace ext NopResponseWriter (replay_request ext reqpb) w)) \<and>
      http_routes (RegHTTPHandler ext ipt g) =
        http_routes g @
        [(''POST'', Endpoint ipt,
          HTTPWrapper ext (httpStatusRespFunc ext) (wkpool (RegHTTPHandler ext ipt g))
            (HTTPStorageWrapper ext HTTP_KEY (httpStatusRespFunc ext) (Some lc)
               (handleJaegerTrace ext)))]"
proof -
  from registered_consumer[OF assms(1-3)] obtain lc where
    lc: "localCache (RegHTTPHandler ext ipt g) = Some lc"
    and fn: "map_of (st_consumers lc) HTTP_KEY = Some (replay_consumer ext)"
    by blast
  have call: "\<forall>buf reqpb w. Unmarshal ext buf = Inr reqpb \<longrightarrow>
         replay_consumer ext buf w =
           (None, handleJaegerTrace ext NopResponseWriter (replay_request ext reqpb) w)"
    by (simp add: replay_consumer_def)
  from http_routes_RegHTTPHandler[OF assms(4), of ext g] lc
  have routes: "http_routes (RegHTTPHandler ext ipt g) =
        http_routes g @
        [(''POST'', Endpoint ipt,
          HTTPWrapper ext (httpStatusRespFunc ext) (wkpool (RegHTTPHandler ext ipt g))
            (HTTPStorageWrapper ext HTTP_KEY (httpStatusRespFunc ext) (Some lc)
               (handleJaegerTrace ext)))]"
    by simp
  from lc fn call routes show ?thesis by blast
qed

theorem replay_invokes_live_handler_witness:
  "LocalCacheConfig example_input = Some \<lparr>Path = ''./jaeger_storage'', Capacity = 5120\<rparr> \<and>
   NewStorage example_ext \<lparr>Path = ''./jaeger_storage'', Capacity = 5120\<rparr> =
     Inr \<lparr>st_enabled = True, st_consumers = [], st_consume_worker = False\<rparr> \<and>
   Endpoint example_input \<noteq> [] \<and>
   (\<exists>lc fn. localCache (RegHTTPHandler example_ext example_input example_globals) = Some lc \<and>
      map_of (st_consumers lc) HTTP_KEY = Some fn \<and>
      fn [1, 2, 3] [] = (None, [(''/apis/traces'', True)]) \<and>
      http_routes (RegHTTPHandler example_ext example_input example_globals) =
        [(''POST'', ''/apis/traces'', PoolWrapped (StorageWrapped Handler))])"
proof -
  let ?cfg = "\<lparr>Path = ''./jaeger_storage'', Capacity = 5120\<rparr>"
  let ?cache = "\<lparr>st_enabled = True, st_consumers = [], st_consume_worker = False\<rparr>
                  :: (string \<times> bool) list consumer Storage"
  have h1: "LocalCacheConfig example_input = Some ?cfg"
    by (simp add: example_input_def)
  have h2: "NewStorage example_ext ?cfg = Inr ?cache"
    by (simp add: example_ext_def)
  have h3: "map_of (st_consumers ?cache) HTTP_KEY = None"
    by simp
  have h4: "Endpoint example_input \<noteq> []"
    by (simp add: example_input_def)
  have dec: "Unmarshal example_ext [1, 2, 3] = Inr (example_payload\<lparr>pb_Body := [2, 3]\<rparr>)"
    by (simp add: example_ext_def example_Unmarshal_def example_payload_def)
  have run: "handleJaegerTrace example_ext NopResponseWriter
               (replay_request example_ext (example_payload\<lparr>pb_Body := [2, 3]\<rparr>)) []
             = [(''/apis/traces'', True)]"
    by (simp add: example_ext_def replay_request_def url_Parse_ctl_def example_payload_def)
  from replay_invokes_live_handler [OF h1 h2 h3 h4, of example_globals]
  obtain lc fn where
    lc: "localCache (RegHTTPHandler example_ext example_input example_globals) = Some lc"
    and fn: "map_of (st_consumers lc) HTTP_KEY = Some fn"
    and call: "\<forall>buf reqpb w. Unmarshal example_ext buf = Inr reqpb \<longrightarrow>
         fn buf w = (None, handleJaegerTrace example_ext NopResponseWriter
                             (replay_request example_ext reqpb) w)"
    and routes: "http_routes (RegHTTPHandler example_ext example_input example_globals) =
        http_routes example_globals @
        [(''POST'', Endpoint example_input,
          HTTPWrapper example_ext (httpStatusRespFunc example_ext)
            (wkpool (RegHTTPHandler example_ext example_input example_globals))
            (HTTPStorageWrapper example_ext HTTP_KEY (httpStatusRespFunc example_ext) (Some lc)
               (handleJaegerTrace example_ext)))]"
    by blast
  from call dec run have "fn [1, 2, 3] [] = (None, [(''/apis/traces'', True)])"
    by simp
  moreover from routes
  have "http_routes (RegHTTPHandler example_ext example_input example_globals) =
        [(''POST'', ''/apis/traces'', PoolWrapped (StorageWrapped Handler))]"
    by (simp add: example_globals_def example_input_def example_ext_def)
  ultimately show ?thesis using h1 h2 h4 lc fn by blast
qed

lemma replay_request_URL:
  "URL (replay_request ext reqpb) =
     (case url_Parse ext (pb_Url reqpb) of Inl err \<Rightarrow> None | Inr u \<Rightarrow> Some u)"
  by (cases "url_Parse ext (pb_Url reqpb)") (simp_all add: replay_request_def)



text \<open>
  C8. The replay consumer returns an error exactly when decoding the buffer fails, and
  then it is the decoder's error. Whenever the buffer decodes it returns nil after one
  call of the handler, whatever \<open>url.Parse\<close> returns for the stored URL and whatever the
  handler does; so it reports the entry as consumed after this one attempt.
\<close>

theorem replay_consumer_error:
  "(fst (replay_consumer ext buf w) = Some err \<longleftrightarrow> Unmarshal ext buf = Inl err) \<and>
   (\<forall>reqpb. Unmarshal ext buf = Inr reqpb \<longrightarrow>
      replay_consumer ext buf w =
        (None, handleJaegerTrace ext NopResponseWriter (replay_request ext reqpb) w)) \<and>
   (\<forall>reqpb e. Unmarshal ext buf = Inr reqpb \<and> url_Parse ext (pb_Url reqpb) = Inl e \<longrightarrow>
      fst (replay_consumer ext buf w) = None)"
  by (cases "Unmarshal ext buf") (simp_all add: replay_consumer_def)

theorem replay_consumer_error_witness:
  "fst (replay_consumer example_ext [] []) = Some (Error ''proto: cannot parse invalid wire-format data'') \<and>
   Unmarshal example_ext [0, 7] = Inr (example_payload\<lparr>pb_Body := [7], pb_Url := [CHR 0x0A]\<rparr>) \<and>
   url_Parse example_ext [CHR 0x0A] = Inl (Error ''net/url: invalid control character in URL'') \<and>
   fst (replay_consumer example_ext [0, 7] []) = None"
proof -
  have fail: "Unmarshal example_ext [] = Inl (Error ''proto: cannot parse invalid wire-format data'')"
    by (simp add: example_ext_def example_Unmarshal_def)
  have dec: "Unmarshal example_ext [0, 7] = Inr (example_payload\<lparr>pb_Body := [7], pb_Url := [CHR 0x0A]\<rparr>)"
    by (simp add: example_ext_def example_Unmarshal_def example_payload_def)
  have parse: "url_Parse example_ext [CHR 0x0A] = Inl (Error ''net/url: invalid control character in URL'')"
    by (simp add: example_ext_def url_Parse_ctl_def)
  have url: "pb_Url (example_payload\<lparr>pb_Body := [7], pb_Url := [CHR 0x0A]\<rparr>) = [CHR 0x0A]"
    by simp
  from replay_consumer_error [of example_ext "[]" "[]"
        "Error ''proto: cannot parse invalid wire-format data''", THEN conjunct1] fail
  have a: "fst (replay_consumer example_ext [] []) =
             Some (Error ''proto: cannot parse invalid wire-format data'')"
    by simp
  from replay_consumer_error [of example_ext "[0, 7]" "[]", THEN conjunct2, THEN conjunct2] dec parse url
  have b: "fst (replay_consumer example_ext [0, 7] []) = None"
    by metis
  from a dec parse b show ?thesis by blast
qed

end
